theory Spec2Isabelle
  imports Main "HOL-Library.Multiset"
begin

section \<open>Data model (im/internal/model/model.go)\<close>

text \<open>
  Go's \<open>int\<close> and \<open>int64\<close> values (user ids, statuses, millisecond and second
  timestamps) are modelled as \<open>int\<close>. None of the modelled operations does arithmetic
  on them, apart from the additive unread counter and the two clock subtractions of the
  route layer; the clock subtractions are written with their 64-bit wrap-around.
\<close>

abbreviation (input) MsgStatusSending :: int where "MsgStatusSending \<equiv> 1"
abbreviation (input) MsgStatusSent :: int where "MsgStatusSent \<equiv> 2"
abbreviation (input) MsgStatusDelivered :: int where "MsgStatusDelivered \<equiv> 3"
abbreviation (input) MsgStatusRead :: int where "MsgStatusRead \<equiv> 4"
abbreviation (input) MsgStatusFailed :: int where "MsgStatusFailed \<equiv> 5"

abbreviation (input) SessionTypeSingle :: int where "SessionTypeSingle \<equiv> 1"
abbreviation (input) SessionTypeGroup :: int where "SessionTypeGroup \<equiv> 2"

text \<open>
  \<open>model.Message\<close>. The \<open>FileInfo\<close> pointer is never persisted and is left out.
  A row of \<open>im_messages\<close> (\<open>DBMessage\<close>) carries the same columns plus the surrogate
  \<open>id\<close> and \<open>created_at\<close>; the table is modelled as the list of its rows in
  insertion order, so the surrogate id is the position in the list.
\<close>

record Message =
  MsgID :: string
  FromUserID :: int
  ToUserID :: int
  GroupID :: int
  Content :: string
  MsgType :: int
  Status :: int
  FileID :: string
  ClientTime :: int
  ServerTime :: int
  DeliveredTime :: int
  ReadTime :: int

text \<open>\<open>model.Session\<close>; \<open>DBSession\<close> has the same columns (and two timestamps kept by GORM).\<close>

record Session =
  s_UserID :: int
  s_TargetID :: int
  s_SessionType :: int
  s_LastMsgContent :: string
  s_LastMsgTime :: int
  s_UnreadCount :: int

text \<open>\<open>model.GetMessagesRequest\<close>.\<close>

record GetMessagesRequest =
  req_UserID :: int
  req_TargetID :: int
  req_SessionType :: int
  req_BeforeTime :: int
  req_Limit :: int

text \<open>\<open>DBServer\<close> and \<open>DBUserRoute\<close> (route repository).\<close>

record DBServer =
  sv_ServerID :: string
  sv_GRPCAddr :: string
  sv_LastHeartbeat :: int

record DBUserRoute =
  ur_UserID :: int
  ur_ServerID :: string
  ur_LastHeartbeat :: int

section \<open>The relational store behind the repositories\<close>

text \<open>
  Every repository method runs one GORM statement chain and returns its \<open>Error\<close>.
  The store is the four tables, each the list of its rows in insertion order, and a flag
  \<open>db_up\<close>: while it is \<open>False\<close> every statement fails with a connection error
  and changes nothing. The other errors are the ones the statements themselves produce:
  \<open>First\<close> on no row, and an insert that violates a unique key.
\<close>

datatype db_error = ErrConn | ErrRecordNotFound | ErrDuplicatedKey

record Database =
  db_up :: bool
  im_messages :: "Message list"
  im_sessions :: "Session list"
  im_servers :: "DBServer list"
  im_user_routes :: "DBUserRoute list"

text \<open>
  \<open>Limit(n)\<close> of GORM v1.25.5 (an external library): a \<open>LIMIT\<close> clause is emitted
  for \<open>n \<ge> 0\<close> and none for a negative \<open>n\<close>.
\<close>

definition gorm_limit :: "int \<Rightarrow> 'a list \<Rightarrow> 'a list" where
  "gorm_limit n xs = (if n < 0 then xs else take (nat n) xs)"

section \<open>MessageRepository\<close>

text \<open>\<open>Save\<close>: one insert; \<open>msg_id\<close> has a unique index.\<close>

definition Save :: "Database \<Rightarrow> Message \<Rightarrow> db_error option \<times> Database" where
  "Save db msg =
     (if \<not> db_up db then (Some ErrConn, db)
      else if MsgID msg \<in> set (map MsgID (im_messages db)) then (Some ErrDuplicatedKey, db)
      else (None, db\<lparr>im_messages := im_messages db @ [msg]\<rparr>))"

text \<open>\<open>GetByMsgID\<close>: \<open>Where("msg_id = ?").First\<close>, the first row in primary-key order.\<close>

definition GetByMsgID :: "Database \<Rightarrow> string \<Rightarrow> db_error + Message" where
  "GetByMsgID db msgID =
     (if \<not> db_up db then Inl ErrConn
      else case find (\<lambda>m. MsgID m = msgID) (im_messages db) of
             None \<Rightarrow> Inl ErrRecordNotFound
           | Some m \<Rightarrow> Inr m)"

text \<open>
  The \<open>updates\<close> map that \<open>UpdateStatus\<close> builds, applied to one row: \<open>status\<close> always,
  \<open>delivered_time\<close> for status delivered, \<open>read_time\<close> for status read.
\<close>

definition apply_updates :: "int \<Rightarrow> int \<Rightarrow> Message \<Rightarrow> Message" where
  "apply_updates status updateTime m =
     (if status = MsgStatusDelivered then m\<lparr>Status := status, DeliveredTime := updateTime\<rparr>
      else if status = MsgStatusRead then m\<lparr>Status := status, ReadTime := updateTime\<rparr>
      else m\<lparr>Status := status\<rparr>)"

text \<open>
  \<open>UpdateStatus\<close>: \<open>Model(&DBMessage{}).Where("msg_id = ?", msgID).Updates(updates)\<close>.
  The \<open>WHERE\<close> clause holds the message id and nothing else; an update that matches no
  row is not an error.
\<close>

definition UpdateStatus :: "Database \<Rightarrow> string \<Rightarrow> int \<Rightarrow> int \<Rightarrow> db_error option \<times> Database" where
  "UpdateStatus db msgID status updateTime =
     (if \<not> db_up db then (Some ErrConn, db)
      else (None, db\<lparr>im_messages :=
              map (\<lambda>m. if MsgID m = msgID then apply_updates status updateTime m else m)
                (im_messages db)\<rparr>))"

text \<open>The persisted status of a message id, read straight from the table.\<close>

definition persisted_status :: "Database \<Rightarrow> string \<Rightarrow> int option" where
  "persisted_status db msgID = map_option Status (find (\<lambda>m. MsgID m = msgID) (im_messages db))"

text \<open>
  A history of \<open>UpdateStatus\<close> calls \<open>(msg_id, new_status, time)\<close>: the successive
  states of the store, the initial one first.
\<close>

fun UpdateStatus_history :: "Database \<Rightarrow> (string \<times> int \<times> int) list \<Rightarrow> Database list" where
  "UpdateStatus_history db [] = [db]"
| "UpdateStatus_history db ((msgID, status, updateTime) # calls) =
     db # UpdateStatus_history (snd (UpdateStatus db msgID status updateTime)) calls"

section \<open>SessionRepository\<close>

text \<open>
  \<open>UpdateSession\<close>: \<open>Clauses(OnConflict{Columns: key, DoUpdates: ...}).Create(dbSession)\<close>.
  The inserted \<open>dbSession\<close> copies five fields of the argument; \<open>UnreadCount\<close> is not
  among them, so a fresh row gets the column default 0. Only the conflict branch uses the
  argument's \<open>UnreadCount\<close>, in \<open>unread_count + ?\<close>. (GORM writes the column default
  for a zero-valued field that declares one, hence \<open>session_type\<close> 0 is inserted as 1.)
\<close>

definition dbSession_of :: "Session \<Rightarrow> Session" where
  "dbSession_of session =
     \<lparr>s_UserID = s_UserID session, s_TargetID = s_TargetID session,
      s_SessionType = (if s_SessionType session = 0 then 1 else s_SessionType session),
      s_LastMsgContent = s_LastMsgContent session, s_LastMsgTime = s_LastMsgTime session,
      s_UnreadCount = 0\<rparr>"

definition same_session_key :: "Session \<Rightarrow> Session \<Rightarrow> bool" where
  "same_session_key a b \<longleftrightarrow>
     s_UserID a = s_UserID b \<and> s_TargetID a = s_TargetID b \<and> s_SessionType a = s_SessionType b"

definition UpdateSession :: "Database \<Rightarrow> Session \<Rightarrow> db_error option \<times> Database" where
  "UpdateSession db session =
     (let dbSession = dbSession_of session in
      if \<not> db_up db then (Some ErrConn, db)
      else if list_ex (same_session_key dbSession) (im_sessions db) then
        (None, db\<lparr>im_sessions :=
           map (\<lambda>r. if same_session_key dbSession r
                     then r\<lparr>s_LastMsgContent := s_LastMsgContent session,
                            s_LastMsgTime := s_LastMsgTime session,
                            s_UnreadCount := s_UnreadCount r + s_UnreadCount session\<rparr>
                     else r)
             (im_sessions db)\<rparr>)
      else (None, db\<lparr>im_sessions := im_sessions db @ [dbSession]\<rparr>))"

text \<open>The unread counter of a session row; a missing row counts as 0.\<close>

definition unread_count_of :: "Database \<Rightarrow> int \<Rightarrow> int \<Rightarrow> int \<Rightarrow> int" where
  "unread_count_of db userID targetID sessionType =
     (case find (\<lambda>r. s_UserID r = userID \<and> s_TargetID r = targetID \<and> s_SessionType r = sessionType)
             (im_sessions db) of
        None \<Rightarrow> 0
      | Some r \<Rightarrow> s_UnreadCount r)"

section \<open>History and undelivered queries of MessageRepository\<close>

text \<open>
  \<open>GetMessages\<close> builds its query clause by clause. GORM joins the \<open>Where\<close> clauses of
  a query with \<open>AND\<close> and puts a clause that itself contains \<open>AND\<close> or \<open>OR\<close> in
  parentheses, so the query is the conjunction of its clauses. Every session type other
  than single is queried by group id. \<open>Order("server_time DESC")\<close> is modelled by a stable
  sort, so rows with equal \<open>server_time\<close> keep their table order (SQL leaves their order
  open). The method also writes the default limit back into the caller's request; that
  write is not modelled.
\<close>

definition single_chat_clause :: "GetMessagesRequest \<Rightarrow> Message \<Rightarrow> bool" where
  "single_chat_clause req m \<longleftrightarrow>
     (FromUserID m = req_UserID req \<and> ToUserID m = req_TargetID req) \<or>
     (FromUserID m = req_TargetID req \<and> ToUserID m = req_UserID req)"

definition group_chat_clause :: "GetMessagesRequest \<Rightarrow> Message \<Rightarrow> bool" where
  "group_chat_clause req m \<longleftrightarrow> GroupID m = req_TargetID req"

definition GetMessages_query :: "GetMessagesRequest \<Rightarrow> (Message \<Rightarrow> bool) list" where
  "GetMessages_query req =
     (let query = (if req_SessionType req = SessionTypeSingle then [single_chat_clause req]
                   else [group_chat_clause req])
      in if req_BeforeTime req > 0 then query @ [\<lambda>m. ServerTime m < req_BeforeTime req]
         else query)"

definition MessageRepository_GetMessages ::
  "Database \<Rightarrow> GetMessagesRequest \<Rightarrow> db_error + Message list" where
  "MessageRepository_GetMessages db req =
     (let query = GetMessages_query req;
          limit = (if req_Limit req = 0 then 20 else req_Limit req)
      in if \<not> db_up db then Inl ErrConn
         else Inr (gorm_limit limit
                (sort_key (\<lambda>m. - ServerTime m)
                   (filter (\<lambda>m. list_all (\<lambda>clause. clause m) query) (im_messages db)))))"

text \<open>\<open>IMServer.GetMessages\<close>: the same default, then the repository.\<close>

definition IMServer_GetMessages ::
  "Database \<Rightarrow> GetMessagesRequest \<Rightarrow> db_error + Message list" where
  "IMServer_GetMessages db req =
     MessageRepository_GetMessages db
       (if req_Limit req = 0 then req\<lparr>req_Limit := 20\<rparr> else req)"

text \<open>What the specification says a history request selects.\<close>

definition spec_history_selects :: "GetMessagesRequest \<Rightarrow> Message \<Rightarrow> bool" where
  "spec_history_selects req m \<longleftrightarrow>
     (if req_SessionType req = SessionTypeSingle
      then (FromUserID m = req_UserID req \<and> ToUserID m = req_TargetID req) \<or>
           (FromUserID m = req_TargetID req \<and> ToUserID m = req_UserID req)
      else GroupID m = req_TargetID req) \<and>
     (req_BeforeTime req > 0 \<longrightarrow> ServerTime m < req_BeforeTime req)"

definition GetUndeliveredMessages :: "Database \<Rightarrow> int \<Rightarrow> int \<Rightarrow> db_error + Message list" where
  "GetUndeliveredMessages db userID limit =
     (if \<not> db_up db then Inl ErrConn
      else Inr (gorm_limit limit
             (sort_key ServerTime
                (filter (\<lambda>m. ToUserID m = userID \<and> Status m = MsgStatusSent) (im_messages db)))))"

section \<open>RouteRepository\<close>

text \<open>
  \<open>time.Now().Unix()\<close> is the parameter \<open>now\<close>. The two register methods update first
  and insert when \<open>RowsAffected\<close> is 0; \<open>RowsAffected\<close> is taken to be the number of rows
  the \<open>WHERE\<close> clause matched.
\<close>

definition wrap_int64 :: "int \<Rightarrow> int" where
  "wrap_int64 x = (x + 2 ^ 63) mod 2 ^ 64 - 2 ^ 63"

record UserRoute =
  r_ServerID :: string
  r_GRPCAddr :: string

definition RegisterServer :: "Database \<Rightarrow> int \<Rightarrow> string \<Rightarrow> string \<Rightarrow> db_error option \<times> Database" where
  "RegisterServer db now serverID grpcAddr =
     (if \<not> db_up db then (Some ErrConn, db)
      else if list_ex (\<lambda>r. sv_ServerID r = serverID) (im_servers db) then
        (None, db\<lparr>im_servers :=
           map (\<lambda>r. if sv_ServerID r = serverID
                     then r\<lparr>sv_GRPCAddr := grpcAddr, sv_LastHeartbeat := now\<rparr> else r)
             (im_servers db)\<rparr>)
      else (None, db\<lparr>im_servers := im_servers db @
              [\<lparr>sv_ServerID = serverID, sv_GRPCAddr = grpcAddr, sv_LastHeartbeat = now\<rparr>]\<rparr>))"

definition UnregisterServer :: "Database \<Rightarrow> string \<Rightarrow> db_error option \<times> Database" where
  "UnregisterServer db serverID =
     (if \<not> db_up db then (Some ErrConn, db)
      else (None, db\<lparr>im_servers := filter (\<lambda>r. sv_ServerID r \<noteq> serverID) (im_servers db)\<rparr>))"

definition UpdateServerHeartbeat :: "Database \<Rightarrow> int \<Rightarrow> string \<Rightarrow> db_error option \<times> Database" where
  "UpdateServerHeartbeat db now serverID =
     (if \<not> db_up db then (Some ErrConn, db)
      else (None, db\<lparr>im_servers :=
              map (\<lambda>r. if sv_ServerID r = serverID then r\<lparr>sv_LastHeartbeat := now\<rparr> else r)
                (im_servers db)\<rparr>))"

text \<open>\<open>GetActiveServers\<close>: the servers with a heartbeat in the last 60 seconds.\<close>

definition GetActiveServers :: "Database \<Rightarrow> int \<Rightarrow> db_error + DBServer list" where
  "GetActiveServers db now =
     (let timeout = wrap_int64 (now - 60) in
      if \<not> db_up db then Inl ErrConn
      else Inr (filter (\<lambda>r. sv_LastHeartbeat r > timeout) (im_servers db)))"


definition UnregisterUserRoute :: "Database \<Rightarrow> int \<Rightarrow> db_error option \<times> Database" where
  "UnregisterUserRoute db userID =
     (if \<not> db_up db then (Some ErrConn, db)
      else (None, db\<lparr>im_user_routes := filter (\<lambda>r. ur_UserID r \<noteq> userID) (im_user_routes db)\<rparr>))"

text \<open>
  \<open>RouteRepository.GetUserRoute\<close>: the user's route row, then the registry row of its
  server. Neither query reads \<open>last_heartbeat\<close>.
\<close>

definition RouteRepository_GetUserRoute :: "Database \<Rightarrow> int \<Rightarrow> db_error + UserRoute" where
  "RouteRepository_GetUserRoute db userID =
     (if \<not> db_up db then Inl ErrConn
      else case find (\<lambda>r. ur_UserID r = userID) (im_user_routes db) of
             None \<Rightarrow> Inl ErrRecordNotFound
           | Some route \<Rightarrow>
               (case find (\<lambda>r. sv_ServerID r = ur_ServerID route) (im_servers db) of
                  None \<Rightarrow> Inl ErrRecordNotFound
                | Some server \<Rightarrow>
                    Inr \<lparr>r_ServerID = ur_ServerID route, r_GRPCAddr = sv_GRPCAddr server\<rparr>))"

section \<open>RouteManager (im/internal/core/route.go)\<close>

record RouteCache =
  GatewayID :: string
  CacheTime :: int

record RouteManager =
  rm_serverID :: string
  cacheTTL :: int
  userRoutes :: "int \<rightharpoonup> RouteCache"
  gatewayAddrs :: "string \<rightharpoonup> string"

definition NewRouteManager :: "string \<Rightarrow> int \<Rightarrow> RouteManager" where
  "NewRouteManager serverID ttl =
     \<lparr>rm_serverID = serverID, cacheTTL = ttl, userRoutes = Map.empty, gatewayAddrs = Map.empty\<rparr>"


definition RouteManager_Unregister ::
  "RouteManager \<Rightarrow> Database \<Rightarrow> int \<Rightarrow> db_error option \<times> RouteManager \<times> Database" where
  "RouteManager_Unregister rm db userID =
     (case UnregisterUserRoute db userID of
        (Some err, db') \<Rightarrow> (Some err, rm, db')
      | (None, db') \<Rightarrow> (None, rm\<lparr>userRoutes := (userRoutes rm)(userID := None)\<rparr>, db'))"

text \<open>
  The test of the cache branch, \<open>time.Now().Unix()-route.CacheTime < int64(rm.cacheTTL)\<close>,
  with the 64-bit subtraction written out.
\<close>

definition cache_fresh :: "RouteManager \<Rightarrow> int \<Rightarrow> int \<Rightarrow> bool" where
  "cache_fresh rm now userID =
     (case userRoutes rm userID of
        None \<Rightarrow> False
      | Some route \<Rightarrow> wrap_int64 (now - CacheTime route) < cacheTTL rm)"

text \<open>
  \<open>RouteManager.GetUserRoute\<close> returns \<open>(gatewayID, gatewayAddr, online)\<close>. Reading a
  missing key of a Go map gives the zero value, here the empty string. \<open>now\<close> is the
  clock at the cache test and \<open>now_fill\<close> the clock when the cache is refilled.
\<close>

definition RouteManager_GetUserRoute ::
  "RouteManager \<Rightarrow> Database \<Rightarrow> int \<Rightarrow> int \<Rightarrow> int \<Rightarrow> (string \<times> string \<times> bool) \<times> RouteManager" where
  "RouteManager_GetUserRoute rm db now now_fill userID =
     (case (if cache_fresh rm now userID then userRoutes rm userID else None) of
        Some route \<Rightarrow>
          ((GatewayID route,
            (case gatewayAddrs rm (GatewayID route) of None \<Rightarrow> '''' | Some addr \<Rightarrow> addr),
            True), rm)
      | None \<Rightarrow>
          (case RouteRepository_GetUserRoute db userID of
             Inl err \<Rightarrow> (('''', '''', False), rm)
           | Inr userRoute \<Rightarrow>
               ((r_ServerID userRoute, r_GRPCAddr userRoute, True),
                rm\<lparr>userRoutes := (userRoutes rm)(userID \<mapsto>
                       \<lparr>GatewayID = r_ServerID userRoute, CacheTime = now_fill\<rparr>),
                   gatewayAddrs := (gatewayAddrs rm)(r_ServerID userRoute \<mapsto> r_GRPCAddr userRoute)\<rparr>)))"


section \<open>Wire frames (im/internal/protocol/protocol.go)\<close>

text \<open>
  The payload put on a client's queue is \<open>json.Marshal\<close> of a \<open>WSMessage\<close>. The
  encoding is not modelled: a frame is the \<open>WSMessage\<close> value itself, its \<open>Data\<close> one
  of the three payload structs the server sends.
\<close>

datatype ws_data =
    WSPushMessage string int string int string int int int
  | WSStatusUpdate string int int
  | WSAckMessage string int int string

record WSMessage =
  ws_Type :: string
  ws_MsgID :: string
  ws_Data :: ws_data
  ws_Timestamp :: int

abbreviation (input) WSMsgTypeChatMsg :: string where "WSMsgTypeChatMsg \<equiv> ''chat_msg''"
abbreviation (input) WSMsgTypeAck :: string where "WSMsgTypeAck \<equiv> ''ack''"
abbreviation (input) WSMsgTypeStatusUpdate :: string where "WSMsgTypeStatusUpdate \<equiv> ''status_update''"

text \<open>\<open>WSReceipt\<close>, the decoded payload of a delivered or read receipt.\<close>

record WSReceipt =
  rc_MsgID :: string
  rc_Type :: string
  rc_Time :: int

section \<open>Hub (im/internal/core/hub.go)\<close>

text \<open>
  A \<open>Client\<close> holds a connection and a buffered channel of capacity 256. Both are shared
  objects: the hub closes them while other goroutines still hold the client. The hub
  state therefore carries a heap of channels (a handle is an index into \<open>chans\<close>), the
  set of closed connection handles, and the client map. \<open>events\<close> records the hub's
  effects in program order.

  The model is sequential: each method runs to completion on the state it is given, and
  the writer goroutine that empties a queue is not part of it, so a queue refuses a frame
  exactly when it holds 256. Runtime panics of Go (send on a closed channel, close of a
  closed or nil channel) are results of type \<open>go_panic\<close>.
\<close>

record Chan =
  buf :: "WSMessage list"
  closed :: bool

record Client =
  c_UserID :: int
  c_Conn :: nat
  c_Send :: nat

datatype hub_event =
    CloseSend nat
  | CloseConn nat
  | Install int Client
  | Remove int
  | SendAttempt int WSMessage bool

datatype go_panic = SendOnClosedChannel | CloseOfClosedChannel | CloseOfNilChannel

record Hub =
  clients :: "int \<rightharpoonup> Client"
  chans :: "Chan list"
  closed_conns :: "nat set"
  events :: "hub_event list"

definition NewHub :: Hub where
  "NewHub = \<lparr>clients = Map.empty, chans = [], closed_conns = {}, events = []\<rparr>"

definition chan_at :: "Hub \<Rightarrow> nat \<Rightarrow> Chan option" where
  "chan_at h i = (if i < length (chans h) then Some (chans h ! i) else None)"

text \<open>\<open>close(ch)\<close>.\<close>

definition close_chan :: "Hub \<Rightarrow> nat \<Rightarrow> go_panic + Hub" where
  "close_chan h i =
     (case chan_at h i of
        None \<Rightarrow> Inl CloseOfNilChannel
      | Some ch \<Rightarrow>
          if closed ch then Inl CloseOfClosedChannel
          else Inr (h\<lparr>chans := (chans h)[i := ch\<lparr>closed := True\<rparr>],
                      events := events h @ [CloseSend i]\<rparr>))"

text \<open>\<open>conn.Close()\<close>; its error is never looked at.\<close>

definition close_conn :: "Hub \<Rightarrow> nat \<Rightarrow> Hub" where
  "close_conn h c = h\<lparr>closed_conns := insert c (closed_conns h), events := events h @ [CloseConn c]\<rparr>"

text \<open>\<open>h.clients[userID] = client\<close>.\<close>

definition install :: "Hub \<Rightarrow> int \<Rightarrow> Client \<Rightarrow> Hub" where
  "install h userID client =
     h\<lparr>clients := (clients h)(userID \<mapsto> client), events := events h @ [Install userID client]\<rparr>"

text \<open>
  \<open>Hub.Register\<close>. The new client gets a fresh channel. The writer goroutine it starts
  is outside the model.
\<close>

definition Hub_Register :: "Hub \<Rightarrow> int \<Rightarrow> nat \<Rightarrow> go_panic + (Client \<times> Hub)" where
  "Hub_Register h userID conn =
     (let client = \<lparr>c_UserID = userID, c_Conn = conn, c_Send = length (chans h)\<rparr>;
          h1 = h\<lparr>chans := chans h @ [\<lparr>buf = [], closed = False\<rparr>]\<rparr>
      in case clients h1 userID of
           None \<Rightarrow> Inr (client, install h1 userID client)
         | Some oldClient \<Rightarrow>
             (case close_chan h1 (c_Send oldClient) of
                Inl p \<Rightarrow> Inl p
              | Inr h2 \<Rightarrow> Inr (client, install (close_conn h2 (c_Conn oldClient)) userID client)))"

definition Hub_Unregister :: "Hub \<Rightarrow> int \<Rightarrow> go_panic + Hub" where
  "Hub_Unregister h userID =
     (case clients h userID of
        None \<Rightarrow> Inr h
      | Some client \<Rightarrow>
          (case close_chan h (c_Send client) of
             Inl p \<Rightarrow> Inl p
           | Inr h2 \<Rightarrow>
               (let h3 = close_conn h2 (c_Conn client)
                in Inr (h3\<lparr>clients := (clients h3)(userID := None),
                           events := events h3 @ [Remove userID]\<rparr>))))"

text \<open>
  \<open>Hub.SendToUser\<close>: a non-blocking send, \<open>select { case client.Send <- data: ... default: ... }\<close>.
  A nil channel is never ready; a closed one panics.
\<close>

definition SendToUser :: "Hub \<Rightarrow> int \<Rightarrow> WSMessage \<Rightarrow> go_panic + (bool \<times> Hub)" where
  "SendToUser h userID data =
     (case clients h userID of
        None \<Rightarrow> Inr (False, h\<lparr>events := events h @ [SendAttempt userID data False]\<rparr>)
      | Some client \<Rightarrow>
          (case chan_at h (c_Send client) of
             None \<Rightarrow> Inr (False, h\<lparr>events := events h @ [SendAttempt userID data False]\<rparr>)
           | Some ch \<Rightarrow>
               if closed ch then Inl SendOnClosedChannel
               else if length (buf ch) < 256 then
                 Inr (True, h\<lparr>chans := (chans h)[c_Send client := ch\<lparr>buf := buf ch @ [data]\<rparr>],
                              events := events h @ [SendAttempt userID data True]\<rparr>)
               else Inr (False, h\<lparr>events := events h @ [SendAttempt userID data False]\<rparr>)))"

definition HasClient :: "Hub \<Rightarrow> int \<Rightarrow> bool" where
  "HasClient h userID \<longleftrightarrow> clients h userID \<noteq> None"

text \<open>Every client in the map has an allocated channel that is still open.\<close>

definition hub_ok :: "Hub \<Rightarrow> bool" where
  "hub_ok h \<longleftrightarrow>
     (\<forall>userID client. clients h userID = Some client \<longrightarrow>
        c_Send client < length (chans h) \<and> \<not> closed (chans h ! c_Send client))"

text \<open>
  The invariant of the hub's methods: \<open>hub_ok\<close>, and no two users' clients share a
  channel (each client gets its own in \<open>Register\<close>).
\<close>

definition hub_inv :: "Hub \<Rightarrow> bool" where
  "hub_inv h \<longleftrightarrow>
     hub_ok h \<and>
     (\<forall>u v c c'. clients h u = Some c \<and> clients h v = Some c' \<and> u \<noteq> v \<longrightarrow> c_Send c \<noteq> c_Send c')"

section \<open>IMServer (im/internal/core)\<close>

text \<open>
  The server state the modelled methods touch: its id, the hub, the route manager and the
  store shared by the three repositories. \<open>time.Now().UnixMilli()\<close> is a parameter.
\<close>

record IMServer =
  config_ServerID :: string
  hub :: Hub
  routeManager :: RouteManager
  store :: Database

record ForwardMessageRequest =
  fw_ToUserID :: int
  fw_MsgID :: string
  fw_FromUserID :: int
  fw_Content :: string
  fw_MsgType :: int
  fw_ClientTime :: int
  fw_ServerTime :: int

record ForwardMessageResponse =
  Delivered :: bool
  Error :: string

text \<open>\<open>notifyStatusUpdate\<close>; the result of \<open>SendToUser\<close> is dropped.\<close>

definition notifyStatusUpdate ::
  "IMServer \<Rightarrow> int \<Rightarrow> string \<Rightarrow> int \<Rightarrow> int \<Rightarrow> go_panic + IMServer" where
  "notifyStatusUpdate s userID msgID status updateTime =
     (let update = \<lparr>ws_Type = WSMsgTypeStatusUpdate, ws_MsgID = msgID,
                     ws_Data = WSStatusUpdate msgID status updateTime,
                     ws_Timestamp = updateTime\<rparr>
      in case SendToUser (hub s) userID update of
           Inl p \<Rightarrow> Inl p
         | Inr (delivered, h') \<Rightarrow> Inr (s\<lparr>hub := h'\<rparr>))"

text \<open>The frame that \<open>pushToLocalUser\<close> and \<open>pushOfflineMessages\<close> build for a message.\<close>

definition pushMsg_of :: "Message \<Rightarrow> WSMessage" where
  "pushMsg_of msg =
     \<lparr>ws_Type = WSMsgTypeChatMsg, ws_MsgID = MsgID msg,
      ws_Data = WSPushMessage (MsgID msg) (FromUserID msg) (Content msg) (MsgType msg)
                  (FileID msg) (Status msg) (ClientTime msg) (ServerTime msg),
      ws_Timestamp = ServerTime msg\<rparr>"

text \<open>
  \<open>pushToLocalUser\<close> returns nothing. On an accepted push it updates the status (the
  error of \<open>UpdateStatus\<close> is dropped) and notifies the sender.
\<close>

definition pushToLocalUser :: "IMServer \<Rightarrow> int \<Rightarrow> Message \<Rightarrow> go_panic + IMServer" where
  "pushToLocalUser s now msg =
     (case SendToUser (hub s) (ToUserID msg) (pushMsg_of msg) of
        Inl p \<Rightarrow> Inl p
      | Inr (delivered, h') \<Rightarrow>
          if delivered then
            notifyStatusUpdate
              (s\<lparr>hub := h',
                 store := snd (UpdateStatus (store s) (MsgID msg) MsgStatusDelivered now)\<rparr>)
              (FromUserID msg) (MsgID msg) MsgStatusDelivered now
          else Inr (s\<lparr>hub := h'\<rparr>))"

text \<open>\<open>IMServer.ForwardMessage\<close>, the receiving side of the inter-node RPC.\<close>

definition ForwardMessage ::
  "IMServer \<Rightarrow> int \<Rightarrow> ForwardMessageRequest \<Rightarrow> go_panic + (ForwardMessageResponse \<times> IMServer)" where
  "ForwardMessage s now req =
     (let msg = \<lparr>MsgID = fw_MsgID req, FromUserID = fw_FromUserID req, ToUserID = fw_ToUserID req,
                  GroupID = 0, Content = fw_Content req, MsgType = fw_MsgType req,
                  Status = MsgStatusSent, FileID = '''', ClientTime = fw_ClientTime req,
                  ServerTime = fw_ServerTime req, DeliveredTime = 0, ReadTime = 0\<rparr>
      in case pushToLocalUser s now msg of
           Inl p \<Rightarrow> Inl p
         | Inr s' \<Rightarrow> Inr (\<lparr>Delivered = True, Error = ''''\<rparr>, s'))"

text \<open>
  \<open>handleDeliveredReceipt\<close>. The argument is the decoded receipt, \<open>None\<close> when
  \<open>json.Unmarshal\<close> fails.
\<close>

definition handleDeliveredReceipt ::
  "IMServer \<Rightarrow> int \<Rightarrow> int \<Rightarrow> WSReceipt option \<Rightarrow> go_panic + IMServer" where
  "handleDeliveredReceipt s now userID wsMsg =
     (case wsMsg of
        None \<Rightarrow> Inr s
      | Some receipt \<Rightarrow>
          (case UpdateStatus (store s) (rc_MsgID receipt) MsgStatusDelivered now of
             (Some err, d) \<Rightarrow> Inr s
           | (None, d) \<Rightarrow>
               (case GetByMsgID d (rc_MsgID receipt) of
                  Inl err \<Rightarrow> Inr (s\<lparr>store := d\<rparr>)
                | Inr msg \<Rightarrow>
                    notifyStatusUpdate (s\<lparr>store := d\<rparr>) (FromUserID msg) (rc_MsgID receipt)
                      MsgStatusDelivered now)))"

text \<open>
  \<open>MarkAsRead\<close>: one clock reading, then the loop over the ids; an id whose update or
  lookup fails is skipped. The method's own result is always \<open>nil\<close>.
\<close>

fun MarkAsRead_loop :: "IMServer \<Rightarrow> int \<Rightarrow> string list \<Rightarrow> go_panic + IMServer" where
  "MarkAsRead_loop s readTime [] = Inr s"
| "MarkAsRead_loop s readTime (msgID # msgIDs) =
     (case UpdateStatus (store s) msgID MsgStatusRead readTime of
        (Some err, d) \<Rightarrow> MarkAsRead_loop s readTime msgIDs
      | (None, d) \<Rightarrow>
          (case GetByMsgID d msgID of
             Inl err \<Rightarrow> MarkAsRead_loop (s\<lparr>store := d\<rparr>) readTime msgIDs
           | Inr msg \<Rightarrow>
               (case notifyStatusUpdate (s\<lparr>store := d\<rparr>) (FromUserID msg) msgID
                       MsgStatusRead readTime of
                  Inl p \<Rightarrow> Inl p
                | Inr s' \<Rightarrow> MarkAsRead_loop s' readTime msgIDs)))"

definition MarkAsRead ::
  "IMServer \<Rightarrow> int \<Rightarrow> int \<Rightarrow> string list \<Rightarrow> go_panic + (db_error option \<times> IMServer)" where
  "MarkAsRead s now userID msgIDs =
     (case MarkAsRead_loop s now msgIDs of
        Inl p \<Rightarrow> Inl p
      | Inr s' \<Rightarrow> Inr (None, s'))"

text \<open>
  \<open>pushOfflineMessages\<close>. \<open>clock i\<close> is the clock read in the \<open>i\<close>-th pass of the loop
  that delivers. The loop leaves at the first push that is not accepted.
\<close>

fun pushOfflineMessages_loop ::
  "IMServer \<Rightarrow> (nat \<Rightarrow> int) \<Rightarrow> int \<Rightarrow> Message list \<Rightarrow> go_panic + IMServer" where
  "pushOfflineMessages_loop s clock userID [] = Inr s"
| "pushOfflineMessages_loop s clock userID (msg # messages) =
     (case SendToUser (hub s) userID (pushMsg_of msg) of
        Inl p \<Rightarrow> Inl p
      | Inr (delivered, h') \<Rightarrow>
          if delivered then
            (case notifyStatusUpdate
                    (s\<lparr>hub := h',
                       store := snd (UpdateStatus (store s) (MsgID msg) MsgStatusDelivered (clock 0))\<rparr>)
                    (FromUserID msg) (MsgID msg) MsgStatusDelivered (clock 0) of
               Inl p \<Rightarrow> Inl p
             | Inr s' \<Rightarrow> pushOfflineMessages_loop s' (\<lambda>i. clock (Suc i)) userID messages)
          else Inr (s\<lparr>hub := h'\<rparr>))"

definition pushOfflineMessages :: "IMServer \<Rightarrow> (nat \<Rightarrow> int) \<Rightarrow> int \<Rightarrow> go_panic + IMServer" where
  "pushOfflineMessages s clock userID =
     (case GetUndeliveredMessages (store s) userID 100 of
        Inl err \<Rightarrow> Inr s
      | Inr messages \<Rightarrow>
          if length messages = 0 then Inr s
          else pushOfflineMessages_loop s clock userID messages)"

text \<open>\<open>updateSession\<close>: the sender's row, then the recipient's; both errors are dropped.\<close>

definition updateSession :: "IMServer \<Rightarrow> Message \<Rightarrow> IMServer" where
  "updateSession s msg =
     (let d1 = snd (UpdateSession (store s)
                 \<lparr>s_UserID = FromUserID msg, s_TargetID = ToUserID msg,
                  s_SessionType = SessionTypeSingle, s_LastMsgContent = Content msg,
                  s_LastMsgTime = ServerTime msg, s_UnreadCount = 0\<rparr>);
          d2 = snd (UpdateSession d1
                 \<lparr>s_UserID = ToUserID msg, s_TargetID = FromUserID msg,
                  s_SessionType = SessionTypeSingle, s_LastMsgContent = Content msg,
                  s_LastMsgTime = ServerTime msg, s_UnreadCount = 1\<rparr>)
      in s\<lparr>store := d2\<rparr>)"

text \<open>The push attempts on a user's queue among a list of hub events, in order.\<close>

definition chat_attempts :: "int \<Rightarrow> hub_event list \<Rightarrow> (WSMessage \<times> bool) list" where
  "chat_attempts userID evs =
     concat (map (\<lambda>e. case e of
                        SendAttempt u data ok \<Rightarrow>
                          if u = userID \<and> ws_Type data = WSMsgTypeChatMsg then [(data, ok)] else []
                      | _ \<Rightarrow> []) evs)"

section \<open>Concrete stores used in examples\<close>

definition msg_m1 :: Message where
  "msg_m1 = \<lparr>MsgID = ''m1'', FromUserID = 1, ToUserID = 2, GroupID = 0, Content = ''hi'',
     MsgType = 1, Status = MsgStatusSent, FileID = '''', ClientTime = 1000, ServerTime = 1001,
     DeliveredTime = 0, ReadTime = 0\<rparr>"

definition db_empty :: Database where
  "db_empty = \<lparr>db_up = True, im_messages = [], im_sessions = [], im_servers = [],
     im_user_routes = []\<rparr>"

definition db_m1 :: Database where
  "db_m1 = db_empty\<lparr>im_messages := [msg_m1]\<rparr>"

definition db_m1_read :: Database where
  "db_m1_read = db_empty\<lparr>im_messages := [msg_m1\<lparr>Status := MsgStatusRead, DeliveredTime := 1500, ReadTime := 1800\<rparr>]\<rparr>"

definition srv_m1 :: IMServer where
  "srv_m1 = \<lparr>config_ServerID = ''s1'', hub = NewHub, routeManager = NewRouteManager ''s1'' 30,
     store = db_m1\<rparr>"

text \<open>The same server once \<open>m1\<close> has been delivered at 1500 and read at 1800.\<close>

definition srv_m1_read :: IMServer where
  "srv_m1_read = srv_m1\<lparr>store := db_m1_read\<rparr>"

definition receipt_m1 :: WSReceipt where
  "receipt_m1 = \<lparr>rc_MsgID = ''m1'', rc_Type = ''delivered'', rc_Time = 1400\<rparr>"

definition forward_m1 :: ForwardMessageRequest where
  "forward_m1 = \<lparr>fw_ToUserID = 2, fw_MsgID = ''m1'', fw_FromUserID = 1, fw_Content = ''hi'',
     fw_MsgType = 1, fw_ClientTime = 1000, fw_ServerTime = 1001\<rparr>"

text \<open>A hub on which user 2 is connected: connection 7, channel 0, nothing queued.\<close>

definition client_2 :: Client where
  "client_2 = \<lparr>c_UserID = 2, c_Conn = 7, c_Send = 0\<rparr>"

definition hub_2 :: Hub where
  "hub_2 = \<lparr>clients = [2 \<mapsto> client_2], chans = [\<lparr>buf = [], closed = False\<rparr>],
     closed_conns = {}, events = []\<rparr>"

text \<open>
  A store in which user 2 is routed to server \<open>s2\<close>, whose registry row is still there
  with a last heartbeat at second 100.
\<close>

definition db_dead_s2 :: Database where
  "db_dead_s2 = db_empty\<lparr>
     im_servers := [\<lparr>sv_ServerID = ''s2'', sv_GRPCAddr = ''10.0.0.2:50051'', sv_LastHeartbeat = 100\<rparr>],
     im_user_routes := [\<lparr>ur_UserID = 2, ur_ServerID = ''s2'', ur_LastHeartbeat = 100\<rparr>]\<rparr>"

definition rm_s1 :: RouteManager where
  "rm_s1 = NewRouteManager ''s1'' 30"

definition history_req :: GetMessagesRequest where
  "history_req = \<lparr>req_UserID = 1, req_TargetID = 2, req_SessionType = SessionTypeSingle,
     req_BeforeTime = 0, req_Limit = 0\<rparr>"

text \<open>
  A server on which user 2 is connected with 255 frames queued, and two messages for user
  2 wait in status sent; the table holds the later one first.
\<close>

definition msg_m2 :: Message where
  "msg_m2 = msg_m1\<lparr>MsgID := ''m2'', ServerTime := 1002\<rparr>"

definition srv_two :: IMServer where
  "srv_two = \<lparr>config_ServerID = ''s1'',
     hub = hub_2\<lparr>chans := [\<lparr>buf = replicate 255 (pushMsg_of msg_m1), closed = False\<rparr>]\<rparr>,
     routeManager = rm_s1,
     store = db_empty\<lparr>im_messages := [msg_m2, msg_m1]\<rparr>\<rparr>"

section \<open>Status updates\<close>

lemma find_map_same_key:
  assumes "\<And>m. MsgID (g m) = MsgID m"
  shows "find (\<lambda>m. MsgID m = k) (map g xs) = map_option g (find (\<lambda>m. MsgID m = k) xs)"
  using assms by (induction xs) auto

lemma MsgID_apply_updates [simp]: "MsgID (apply_updates st t m) = MsgID m"
  by (simp add: apply_updates_def)

lemma Status_apply_updates [simp]: "Status (apply_updates st t m) = st"
  by (simp add: apply_updates_def)

lemma find_UpdateStatus_rows:
  "find (\<lambda>m. MsgID m = k)
     (map (\<lambda>m. if MsgID m = msgID then apply_updates st t m else m) xs) =
   map_option (\<lambda>m. if MsgID m = msgID then apply_updates st t m else m)
     (find (\<lambda>m. MsgID m = k) xs)"
  by (rule find_map_same_key) simp

lemma persisted_status_UpdateStatus:
  "persisted_status (snd (UpdateStatus db msgID st t)) k =
     (if db_up db \<and> msgID = k \<and> persisted_status db k \<noteq> None then Some st
      else persisted_status db k)"
proof (cases "find (\<lambda>m. MsgID m = k) (im_messages db)")
  case None
  then show ?thesis
    by (simp add: persisted_status_def UpdateStatus_def find_UpdateStatus_rows)
next
  case (Some m)
  then have "MsgID m = k"
    by (auto simp: find_Some_iff)
  with Some show ?thesis
    by (simp add: persisted_status_def UpdateStatus_def find_UpdateStatus_rows)
qed

lemma db_up_UpdateStatus [simp]:
  "db_up (snd (UpdateStatus db msgID st t)) = db_up db"
  by (simp add: UpdateStatus_def)

lemma apply_updates_fields:
  "apply_updates st t m =
     m\<lparr>Status := st,
       DeliveredTime := (if st = MsgStatusDelivered then t else DeliveredTime m),
       ReadTime := (if st = MsgStatusRead then t else ReadTime m)\<rparr>"
  by (simp add: apply_updates_def)

lemma GetByMsgID_UpdateStatus_same:
  assumes "db_up db" and "GetByMsgID db k = Inr m"
  shows "GetByMsgID (snd (UpdateStatus db k st t)) k = Inr (apply_updates st t m)"
proof -
  from assms have f: "find (\<lambda>m. MsgID m = k) (im_messages db) = Some m"
    by (auto simp: GetByMsgID_def split: option.splits)
  then have "MsgID m = k" by (auto simp: find_Some_iff)
  with f assms(1) show ?thesis
    by (simp add: GetByMsgID_def UpdateStatus_def find_UpdateStatus_rows)
qed

lemma GetByMsgID_UpdateStatus_other:
  assumes "k' \<noteq> k"
  shows "GetByMsgID (snd (UpdateStatus db k st t)) k' = GetByMsgID db k'"
proof (cases "find (\<lambda>m. MsgID m = k') (im_messages db)")
  case None
  then show ?thesis
    by (simp add: GetByMsgID_def UpdateStatus_def find_UpdateStatus_rows)
next
  case (Some m')
  then have "MsgID m' = k'" by (auto simp: find_Some_iff)
  with Some assms show ?thesis
    by (simp add: GetByMsgID_def UpdateStatus_def find_UpdateStatus_rows)
qed

lemma UpdateStatus_history_exact:
  assumes "db_up db" and "persisted_status db k = Some s0"
  shows "\<exists>xs. map (\<lambda>d. persisted_status d k) (UpdateStatus_history db calls) = map Some (s0 # xs) \<and>
           (sorted (s0 # xs) \<longleftrightarrow>
            sorted (s0 # map (\<lambda>c. fst (snd c)) (filter (\<lambda>c. fst c = k) calls)))"
  using assms
proof (induction calls arbitrary: db s0)
  case Nil
  then show ?case by simp
next
  case (Cons c calls)
  obtain msgID st t where c: "c = (msgID, st, t)" by (cases c) auto
  let ?db1 = "snd (UpdateStatus db msgID st t)"
  let ?s1 = "if msgID = k then st else s0"
  let ?rest = "map (\<lambda>c. fst (snd c)) (filter (\<lambda>c. fst c = k) calls)"
  have up: "db_up ?db1" using Cons.prems(1) by simp
  have s1: "persisted_status ?db1 k = Some ?s1"
    using Cons.prems by (simp add: persisted_status_UpdateStatus)
  from Cons.IH [OF up s1] obtain xs where
    xs: "map (\<lambda>d. persisted_status d k) (UpdateStatus_history ?db1 calls) = map Some (?s1 # xs)"
        "sorted (?s1 # xs) \<longleftrightarrow> sorted (?s1 # ?rest)"
    by blast
  have h: "map (\<lambda>d. persisted_status d k) (UpdateStatus_history db (c # calls)) =
           map Some (s0 # ?s1 # xs)"
    using xs(1) Cons.prems(2) c by simp
  have "sorted (s0 # ?s1 # xs) \<longleftrightarrow> s0 \<le> ?s1 \<and> sorted (?s1 # xs)"
    by auto
  also have "\<dots> \<longleftrightarrow> s0 \<le> ?s1 \<and> sorted (?s1 # ?rest)"
    using xs(2) by simp
  also have "\<dots> \<longleftrightarrow> sorted (s0 # map (\<lambda>c. fst (snd c)) (filter (\<lambda>c. fst c = k) (c # calls)))"
    using c by auto
  finally have "sorted (s0 # ?s1 # xs) \<longleftrightarrow>
      sorted (s0 # map (\<lambda>c. fst (snd c)) (filter (\<lambda>c. fst c = k) (c # calls)))" .
  with h show ?case by blast
qed

text \<open>
  Claim C1, as amended. \<open>UpdateStatus\<close> refuses nothing. With the store answering, a
  call for a message that has a row returns no error and overwrites: read back, the row
  has the new status, whatever the stored one was, \<open>delivered_time\<close> is the call's
  time when the new status is delivered, \<open>read_time\<close> is the call's time when it is
  read, and every other column is as before; the rows of other message ids are read back
  unchanged. Hence, over any history of calls, the status read at a later point is at
  least the status read at every earlier point if and only if the statuses passed for
  that message id, preceded by its initial status, are in ascending order.
\<close>

theorem UpdateStatus_overwrites_status:
  assumes "db_up db" and "GetByMsgID db k = Inr m"
  shows "fst (UpdateStatus db k st t) = None \<and>
         GetByMsgID (snd (UpdateStatus db k st t)) k =
           Inr (m\<lparr>Status := st,
                  DeliveredTime := (if st = MsgStatusDelivered then t else DeliveredTime m),
                  ReadTime := (if st = MsgStatusRead then t else ReadTime m)\<rparr>) \<and>
         (\<forall>k'. k' \<noteq> k \<longrightarrow> GetByMsgID (snd (UpdateStatus db k st t)) k' = GetByMsgID db k') \<and>
         ((\<forall>i j a b. i \<le> j \<and> j < length (UpdateStatus_history db calls) \<and>
              persisted_status (UpdateStatus_history db calls ! i) k = Some a \<and>
              persisted_status (UpdateStatus_history db calls ! j) k = Some b \<longrightarrow> a \<le> b)
          \<longleftrightarrow> sorted (Status m # map (\<lambda>c. fst (snd c)) (filter (\<lambda>c. fst c = k) calls)))"
proof -
  have a: "fst (UpdateStatus db k st t) = None"
    using assms(1) by (simp add: UpdateStatus_def)
  have b: "GetByMsgID (snd (UpdateStatus db k st t)) k =
           Inr (m\<lparr>Status := st,
                  DeliveredTime := (if st = MsgStatusDelivered then t else DeliveredTime m),
                  ReadTime := (if st = MsgStatusRead then t else ReadTime m)\<rparr>)"
    using GetByMsgID_UpdateStatus_same [OF assms] by (simp only: apply_updates_fields)
  have c: "\<forall>k'. k' \<noteq> k \<longrightarrow> GetByMsgID (snd (UpdateStatus db k st t)) k' = GetByMsgID db k'"
    using GetByMsgID_UpdateStatus_other by blast
  from assms have s0: "persisted_status db k = Some (Status m)"
    by (auto simp: GetByMsgID_def persisted_status_def split: option.splits)
  from UpdateStatus_history_exact [OF assms(1) s0, of calls] obtain xs where
    xs: "map (\<lambda>d. persisted_status d k) (UpdateStatus_history db calls) = map Some (Status m # xs)"
        "sorted (Status m # xs) \<longleftrightarrow>
           sorted (Status m # map (\<lambda>c. fst (snd c)) (filter (\<lambda>c. fst c = k) calls))"
    by blast
  let ?H = "UpdateStatus_history db calls"
  let ?ys = "Status m # xs"
  have len: "length ?H = length ?ys"
    using xs(1) by (metis length_map)
  have nth: "\<And>n. n < length ?ys \<Longrightarrow> persisted_status (?H ! n) k = Some (?ys ! n)"
    using xs(1) len by (metis nth_map)
  have "(\<forall>i j a b. i \<le> j \<and> j < length ?H \<and>
              persisted_status (?H ! i) k = Some a \<and>
              persisted_status (?H ! j) k = Some b \<longrightarrow> a \<le> b)
        \<longleftrightarrow> (\<forall>i j. i \<le> j \<longrightarrow> j < length ?ys \<longrightarrow> ?ys ! i \<le> ?ys ! j)"
  proof
    assume L: "\<forall>i j a b. i \<le> j \<and> j < length ?H \<and>
              persisted_status (?H ! i) k = Some a \<and>
              persisted_status (?H ! j) k = Some b \<longrightarrow> a \<le> b"
    show "\<forall>i j. i \<le> j \<longrightarrow> j < length ?ys \<longrightarrow> ?ys ! i \<le> ?ys ! j"
    proof (intro allI impI)
      fix i j assume ij: "i \<le> j" "j < length ?ys"
      then have "persisted_status (?H ! i) k = Some (?ys ! i)" "persisted_status (?H ! j) k = Some (?ys ! j)"
        using nth by auto
      with L ij len show "?ys ! i \<le> ?ys ! j" by metis
    qed
  next
    assume R: "\<forall>i j. i \<le> j \<longrightarrow> j < length ?ys \<longrightarrow> ?ys ! i \<le> ?ys ! j"
    show "\<forall>i j a b. i \<le> j \<and> j < length ?H \<and>
              persisted_status (?H ! i) k = Some a \<and>
              persisted_status (?H ! j) k = Some b \<longrightarrow> a \<le> b"
    proof (intro allI impI)
      fix i j a b
      assume h: "i \<le> j \<and> j < length ?H \<and>
              persisted_status (?H ! i) k = Some a \<and>
              persisted_status (?H ! j) k = Some b"
      then have "a = ?ys ! i" "b = ?ys ! j"
        using nth [of i] nth [of j] len by auto
      with R h len show "a \<le> b" by metis
    qed
  qed
  also have "\<dots> \<longleftrightarrow> sorted ?ys"
    by (simp only: sorted_iff_nth_mono)
  finally have d: "(\<forall>i j a b. i \<le> j \<and> j < length ?H \<and>
              persisted_status (?H ! i) k = Some a \<and>
              persisted_status (?H ! j) k = Some b \<longrightarrow> a \<le> b)
          \<longleftrightarrow> sorted (Status m # map (\<lambda>c. fst (snd c)) (filter (\<lambda>c. fst c = k) calls))"
    using xs(2) by simp
  from a b c d show ?thesis by (intro conjI)
qed

text \<open>
  On the read message \<open>m1\<close> a call with status delivered at time 2000 is accepted and
  read back as status 3 with \<open>delivered_time\<close> 2000; the passed statuses 4, 3 are not
  ascending and the history is not monotone.
\<close>

theorem UpdateStatus_overwrites_status_witness:
  "db_up db_m1_read \<and>
   GetByMsgID db_m1_read ''m1'' =
     Inr (msg_m1\<lparr>Status := MsgStatusRead, DeliveredTime := 1500, ReadTime := 1800\<rparr>) \<and>
   fst (UpdateStatus db_m1_read ''m1'' MsgStatusDelivered 2000) = None \<and>
   GetByMsgID (snd (UpdateStatus db_m1_read ''m1'' MsgStatusDelivered 2000)) ''m1'' =
     Inr (msg_m1\<lparr>Status := MsgStatusDelivered, DeliveredTime := 2000, ReadTime := 1800\<rparr>) \<and>
   GetByMsgID (snd (UpdateStatus db_m1_read ''m1'' MsgStatusDelivered 2000)) ''m9'' =
     GetByMsgID db_m1_read ''m9'' \<and>
   \<not> sorted (MsgStatusRead #
        map (\<lambda>c. fst (snd c)) (filter (\<lambda>c. fst c = ''m1'') [(''m1'', MsgStatusDelivered, 2000::int)])) \<and>
   \<not> (\<forall>i j a b. i \<le> j \<and>
          j < length (UpdateStatus_history db_m1_read [(''m1'', MsgStatusDelivered, 2000)]) \<and>
          persisted_status (UpdateStatus_history db_m1_read [(''m1'', MsgStatusDelivered, 2000)] ! i) ''m1'' = Some a \<and>
          persisted_status (UpdateStatus_history db_m1_read [(''m1'', MsgStatusDelivered, 2000)] ! j) ''m1'' = Some b
          \<longrightarrow> a \<le> b)"
proof -
  have a: "db_up db_m1_read"
    by (simp add: db_m1_read_def db_empty_def)
  have b: "GetByMsgID db_m1_read ''m1'' =
     Inr (msg_m1\<lparr>Status := MsgStatusRead, DeliveredTime := 1500, ReadTime := 1800\<rparr>)"
    by (simp add: GetByMsgID_def db_m1_read_def db_empty_def msg_m1_def)
  have c: "''m9'' \<noteq> ''m1''" by simp
  have d: "\<not> sorted (MsgStatusRead #
        map (\<lambda>c. fst (snd c)) (filter (\<lambda>c. fst c = ''m1'') [(''m1'', MsgStatusDelivered, 2000::int)]))"
    by simp
  note th = UpdateStatus_overwrites_status [OF a b, of MsgStatusDelivered 2000
      "[(''m1'', MsgStatusDelivered, 2000)]"]
  note 1 = th [THEN conjunct1]
  note t2 = th [THEN conjunct2, THEN conjunct1]
  note t3 = th [THEN conjunct2, THEN conjunct2, THEN conjunct1]
  note t4 = th [THEN conjunct2, THEN conjunct2, THEN conjunct2]
  from t2 have 2: "GetByMsgID (snd (UpdateStatus db_m1_read ''m1'' MsgStatusDelivered 2000)) ''m1'' =
     Inr (msg_m1\<lparr>Status := MsgStatusDelivered, DeliveredTime := 2000, ReadTime := 1800\<rparr>)"
    by simp
  from t3 [rule_format, OF c]
  have 3: "GetByMsgID (snd (UpdateStatus db_m1_read ''m1'' MsgStatusDelivered 2000)) ''m9'' =
     GetByMsgID db_m1_read ''m9''" .
  have e: "Status (msg_m1\<lparr>Status := MsgStatusRead, DeliveredTime := 1500, ReadTime := 1800\<rparr>) = MsgStatusRead"
    by simp
  note t4' = t4 [unfolded e]
  have 4: "\<not> (\<forall>i j a b. i \<le> j \<and>
          j < length (UpdateStatus_history db_m1_read [(''m1'', MsgStatusDelivered, 2000)]) \<and>
          persisted_status (UpdateStatus_history db_m1_read [(''m1'', MsgStatusDelivered, 2000)] ! i) ''m1'' = Some a \<and>
          persisted_status (UpdateStatus_history db_m1_read [(''m1'', MsgStatusDelivered, 2000)] ! j) ''m1'' = Some b
          \<longrightarrow> a \<le> b)"
  proof
    assume h: "\<forall>i j a b. i \<le> j \<and>
          j < length (UpdateStatus_history db_m1_read [(''m1'', MsgStatusDelivered, 2000)]) \<and>
          persisted_status (UpdateStatus_history db_m1_read [(''m1'', MsgStatusDelivered, 2000)] ! i) ''m1'' = Some a \<and>
          persisted_status (UpdateStatus_history db_m1_read [(''m1'', MsgStatusDelivered, 2000)] ! j) ''m1'' = Some b
          \<longrightarrow> a \<le> b"
    from t4' h have "sorted (MsgStatusRead #
        map (\<lambda>c. fst (snd c)) (filter (\<lambda>c. fst c = ''m1'') [(''m1'', MsgStatusDelivered, 2000::int)]))"
      by (rule iffD1)
    with d show False by (rule notE)
  qed
  from a b 1 2 3 d 4 show ?thesis by (intro conjI)
qed

text \<open>
  Claim C1 as stated fails: on a message that is read (status 4), a call with status
  delivered succeeds and the persisted status becomes 3.
\<close>

theorem UpdateStatus_backward_counterexample:
  "persisted_status db_m1_read ''m1'' = Some MsgStatusRead \<and>
   fst (UpdateStatus db_m1_read ''m1'' MsgStatusDelivered 2000) = None \<and>
   persisted_status (snd (UpdateStatus db_m1_read ''m1'' MsgStatusDelivered 2000)) ''m1''
     = Some MsgStatusDelivered"
  by (simp add: persisted_status_def UpdateStatus_def db_m1_read_def db_empty_def msg_m1_def
      apply_updates_def)

section \<open>The hub invariant\<close>

lemma hub_ok_enqueue:
  assumes "hub_ok h"
  shows "hub_ok (h\<lparr>chans := (chans h)[i := (chans h ! i)\<lparr>buf := b\<rparr>], events := e\<rparr>)"
  unfolding hub_ok_def
proof (intro allI impI)
  fix userID client
  assume "clients (h\<lparr>chans := (chans h)[i := (chans h ! i)\<lparr>buf := b\<rparr>], events := e\<rparr>) userID = Some client"
  then have "clients h userID = Some client" by simp
  with assms have "c_Send client < length (chans h)" "\<not> closed (chans h ! c_Send client)"
    by (auto simp: hub_ok_def)
  then show "c_Send client < length (chans (h\<lparr>chans := (chans h)[i := (chans h ! i)\<lparr>buf := b\<rparr>], events := e\<rparr>)) \<and>
        \<not> closed (chans (h\<lparr>chans := (chans h)[i := (chans h ! i)\<lparr>buf := b\<rparr>], events := e\<rparr>) ! c_Send client)"
    by (cases "i = c_Send client") simp_all
qed

lemma SendToUser_ok:
  assumes "hub_ok h"
  shows "\<exists>delivered h'. SendToUser h userID data = Inr (delivered, h') \<and> hub_ok h' \<and>
           clients h' = clients h \<and> closed_conns h' = closed_conns h \<and>
           events h' = events h @ [SendAttempt userID data delivered]"
proof (cases "clients h userID")
  case None
  then show ?thesis
    using assms by (auto simp: SendToUser_def hub_ok_def)
next
  case (Some client)
  with assms have ok: "c_Send client < length (chans h)" "\<not> closed (chans h ! c_Send client)"
    by (auto simp: hub_ok_def)
  show ?thesis
  proof (cases "length (buf (chans h ! c_Send client)) < 256")
    case True
    have "hub_ok (h\<lparr>chans := (chans h)[c_Send client := (chans h ! c_Send client)\<lparr>buf := buf (chans h ! c_Send client) @ [data]\<rparr>],
              events := events h @ [SendAttempt userID data True]\<rparr>)"
      using assms by (rule hub_ok_enqueue)
    with Some ok True show ?thesis
      by (auto simp: SendToUser_def chan_at_def)
  next
    case False
    with Some ok assms show ?thesis
      by (auto simp: SendToUser_def chan_at_def hub_ok_def)
  qed
qed

text \<open>
  \<open>hub_inv\<close> holds of the new hub and is kept by \<open>SendToUser\<close>, \<open>Register\<close> and
  \<open>Unregister\<close>, none of which panics from a state that satisfies it. The states the
  theorems below assume are therefore the ones the hub's methods reach.
\<close>

lemma hub_inv_NewHub: "hub_inv NewHub"
  by (simp add: hub_inv_def hub_ok_def NewHub_def)

lemma hub_inv_SendToUser:
  assumes "hub_inv h"
  shows "\<exists>delivered h'. SendToUser h userID data = Inr (delivered, h') \<and> hub_inv h'"
proof -
  from assms have "hub_ok h" by (simp add: hub_inv_def)
  from SendToUser_ok [OF this, of userID data] obtain delivered h' where
    "SendToUser h userID data = Inr (delivered, h')" "hub_ok h'" "clients h' = clients h"
    by blast
  with assms show ?thesis by (auto simp: hub_inv_def)
qed

lemma hub_inv_Register:
  assumes "hub_inv h"
  shows "\<exists>client h'. Hub_Register h userID conn = Inr (client, h') \<and> hub_inv h' \<and>
           clients h' userID = Some client"
proof -
  from assms have ok: "\<And>u c. clients h u = Some c \<Longrightarrow>
      c_Send c < length (chans h) \<and> \<not> closed (chans h ! c_Send c)"
    and inj: "\<And>u v c c'. clients h u = Some c \<Longrightarrow> clients h v = Some c' \<Longrightarrow> u \<noteq> v \<Longrightarrow>
      c_Send c \<noteq> c_Send c'"
    by (auto simp: hub_inv_def hub_ok_def)
  define client where "client = \<lparr>c_UserID = userID, c_Conn = conn, c_Send = length (chans h)\<rparr>"
  show ?thesis
  proof (cases "clients h userID")
    case None
    define h' where "h' = install (h\<lparr>chans := chans h @ [\<lparr>buf = [], closed = False\<rparr>]\<rparr>) userID client"
    have run: "Hub_Register h userID conn = Inr (client, h')"
      using None by (simp add: Hub_Register_def Let_def client_def h'_def)
    have "hub_inv h'"
      unfolding hub_inv_def hub_ok_def
    proof (intro conjI allI impI)
      fix u c assume "clients h' u = Some c"
      then show "c_Send c < length (chans h')" "\<not> closed (chans h' ! c_Send c)"
        using ok [of u c]
        by (auto simp: h'_def install_def client_def nth_append split: if_splits)
    next
      fix u v c c' assume "clients h' u = Some c \<and> clients h' v = Some c' \<and> u \<noteq> v"
      then show "c_Send c \<noteq> c_Send c'"
        using ok [of u c] ok [of v c'] inj [of u c v c']
        by (auto simp: h'_def install_def client_def split: if_splits)
    qed
    moreover have "clients h' userID = Some client"
      by (simp add: h'_def install_def)
    ultimately show ?thesis using run by blast
  next
    case (Some old)
    from ok [OF Some] have o: "c_Send old < length (chans h)" "\<not> closed (chans h ! c_Send old)"
      by auto
    define h' where "h' = install (close_conn
        (h\<lparr>chans := (chans h @ [\<lparr>buf = [], closed = False\<rparr>])
                 [c_Send old := (chans h ! c_Send old)\<lparr>closed := True\<rparr>],
           events := events h @ [CloseSend (c_Send old)]\<rparr>) (c_Conn old)) userID client"
    have run: "Hub_Register h userID conn = Inr (client, h')"
      using Some o
      by (simp add: Hub_Register_def Let_def client_def h'_def close_chan_def chan_at_def nth_append)
    have "hub_inv h'"
      unfolding hub_inv_def hub_ok_def
    proof (intro conjI allI impI)
      fix u c assume c: "clients h' u = Some c"
      show "c_Send c < length (chans h')"
        using c ok [of u c]
        by (auto simp: h'_def install_def close_conn_def client_def split: if_splits)
      show "\<not> closed (chans h' ! c_Send c)"
      proof (cases "u = userID")
        case True
        with c have "c = client" by (simp add: h'_def install_def)
        then show ?thesis
          using o by (simp add: h'_def install_def close_conn_def client_def)
      next
        case False
        with c have cu: "clients h u = Some c" by (simp add: h'_def install_def close_conn_def)
        from inj [OF cu Some False] have "c_Send c \<noteq> c_Send old" .
        with ok [OF cu] show ?thesis
          by (simp add: h'_def install_def close_conn_def nth_append)
      qed
    next
      fix u v c c' assume "clients h' u = Some c \<and> clients h' v = Some c' \<and> u \<noteq> v"
      then show "c_Send c \<noteq> c_Send c'"
        using ok [of u c] ok [of v c'] inj [of u c v c']
        by (auto simp: h'_def install_def close_conn_def client_def split: if_splits)
    qed
    moreover have "clients h' userID = Some client"
      by (simp add: h'_def install_def)
    ultimately show ?thesis using run by blast
  qed
qed

lemma hub_inv_Unregister:
  assumes "hub_inv h"
  shows "\<exists>h'. Hub_Unregister h userID = Inr h' \<and> hub_inv h' \<and> clients h' userID = None"
proof -
  from assms have ok: "\<And>u c. clients h u = Some c \<Longrightarrow>
      c_Send c < length (chans h) \<and> \<not> closed (chans h ! c_Send c)"
    and inj: "\<And>u v c c'. clients h u = Some c \<Longrightarrow> clients h v = Some c' \<Longrightarrow> u \<noteq> v \<Longrightarrow>
      c_Send c \<noteq> c_Send c'"
    by (auto simp: hub_inv_def hub_ok_def)
  show ?thesis
  proof (cases "clients h userID")
    case None
    with assms show ?thesis by (simp add: Hub_Unregister_def)
  next
    case (Some old)
    from ok [OF Some] have o: "c_Send old < length (chans h)" "\<not> closed (chans h ! c_Send old)"
      by auto
    define h3 where "h3 = close_conn
        (h\<lparr>chans := (chans h)[c_Send old := (chans h ! c_Send old)\<lparr>closed := True\<rparr>],
           events := events h @ [CloseSend (c_Send old)]\<rparr>) (c_Conn old)"
    define h' where "h' = h3\<lparr>clients := (clients h3)(userID := None),
                           events := events h3 @ [Remove userID]\<rparr>"
    have run: "Hub_Unregister h userID = Inr h'"
      using Some o
      by (simp add: Hub_Unregister_def Let_def h'_def h3_def close_chan_def chan_at_def)
    have "hub_inv h'"
      unfolding hub_inv_def hub_ok_def
    proof (intro conjI allI impI)
      fix u c assume c: "clients h' u = Some c"
      then have ne: "u \<noteq> userID" and cu: "clients h u = Some c"
        by (auto simp: h'_def h3_def close_conn_def split: if_splits)
      show "c_Send c < length (chans h')"
        using ok [OF cu] by (simp add: h'_def h3_def close_conn_def)
      from inj [OF cu Some ne] have "c_Send c \<noteq> c_Send old" .
      with ok [OF cu] show "\<not> closed (chans h' ! c_Send c)"
        by (simp add: h'_def h3_def close_conn_def)
    next
      fix u v c c' assume "clients h' u = Some c \<and> clients h' v = Some c' \<and> u \<noteq> v"
      then show "c_Send c \<noteq> c_Send c'"
        using inj [of u c v c']
        by (auto simp: h'_def h3_def close_conn_def split: if_splits)
    qed
    moreover have "clients h' userID = None"
      by (simp add: h'_def)
    ultimately show ?thesis using run by blast
  qed
qed

text \<open>Message ids stay unique: \<open>Save\<close> refuses a duplicate and \<open>UpdateStatus\<close> keeps the ids.\<close>

lemma MsgID_UpdateStatus:
  "map MsgID (im_messages (snd (UpdateStatus db msgID status updateTime))) = map MsgID (im_messages db)"
  by (simp add: UpdateStatus_def comp_def)

lemma distinct_Save:
  assumes "distinct (map MsgID (im_messages db))"
  shows "distinct (map MsgID (im_messages (snd (Save db msg))))"
  using assms by (auto simp: Save_def)

lemma notifyStatusUpdate_ok:
  assumes "hub_ok (hub s)"
  shows "\<exists>s' delivered. notifyStatusUpdate s userID msgID status updateTime = Inr s' \<and>
           hub_ok (hub s') \<and> store s' = store s \<and> clients (hub s') = clients (hub s) \<and>
           events (hub s') = events (hub s) @
             [SendAttempt userID \<lparr>ws_Type = WSMsgTypeStatusUpdate, ws_MsgID = msgID,
                     ws_Data = WSStatusUpdate msgID status updateTime,
                     ws_Timestamp = updateTime\<rparr> delivered]"
proof -
  from SendToUser_ok [OF assms] obtain delivered h' where
    "SendToUser (hub s) userID \<lparr>ws_Type = WSMsgTypeStatusUpdate, ws_MsgID = msgID,
                     ws_Data = WSStatusUpdate msgID status updateTime,
                     ws_Timestamp = updateTime\<rparr> = Inr (delivered, h')"
    "hub_ok h'" "clients h' = clients (hub s)"
    "events h' = events (hub s) @ [SendAttempt userID \<lparr>ws_Type = WSMsgTypeStatusUpdate, ws_MsgID = msgID,
                     ws_Data = WSStatusUpdate msgID status updateTime,
                     ws_Timestamp = updateTime\<rparr> delivered]"
    by blast
  then show ?thesis
    by (auto simp: notifyStatusUpdate_def)
qed

lemma MarkAsRead_loop_ok:
  "hub_ok (hub s) \<Longrightarrow> \<exists>s'. MarkAsRead_loop s readTime msgIDs = Inr s' \<and> hub_ok (hub s')"
proof (induction msgIDs arbitrary: s)
  case Nil
  then show ?case by simp
next
  case (Cons msgID msgIDs)
  show ?case
  proof (cases "UpdateStatus (store s) msgID MsgStatusRead readTime")
    case (Pair e d)
    show ?thesis
    proof (cases e)
      case (Some err)
      with Pair Cons show ?thesis by simp
    next
      case None
      show ?thesis
      proof (cases "GetByMsgID d msgID")
        case (Inl err)
        have "hub_ok (hub (s\<lparr>store := d\<rparr>))" using Cons.prems by simp
        from Cons.IH [OF this] Inl None Pair show ?thesis by simp
      next
        case (Inr msg)
        have "hub_ok (hub (s\<lparr>store := d\<rparr>))" using Cons.prems by simp
        from notifyStatusUpdate_ok [OF this] obtain s1 where
          s1: "notifyStatusUpdate (s\<lparr>store := d\<rparr>) (FromUserID msg) msgID MsgStatusRead readTime = Inr s1"
              "hub_ok (hub s1)"
          by blast
        from Cons.IH [OF s1(2)] s1(1) Inr None Pair show ?thesis by simp
      qed
    qed
  qed
qed

lemma UpdateStatus_no_row:
  assumes "db_up db" and "msgID \<notin> set (map MsgID (im_messages db))"
  shows "UpdateStatus db msgID status updateTime = (None, db)"
proof -
  have "map (\<lambda>m. if MsgID m = msgID then apply_updates status updateTime m else m) (im_messages db)
        = im_messages db"
    by (rule map_idI) (use assms(2) in auto)
  with assms(1) show ?thesis
    by (simp add: UpdateStatus_def)
qed

section \<open>Reading and missing rows\<close>

lemma GetByMsgID_no_row:
  assumes "db_up db" and "msgID \<notin> set (map MsgID (im_messages db))"
  shows "GetByMsgID db msgID = Inl ErrRecordNotFound"
proof -
  have "find (\<lambda>m. MsgID m = msgID) (im_messages db) = None"
    using assms(2) by (auto simp: find_None_iff)
  with assms(1) show ?thesis by (simp add: GetByMsgID_def)
qed

lemma MarkAsRead_loop_no_rows:
  assumes "db_up (store s)" and "\<forall>i\<in>set msgIDs. i \<notin> set (map MsgID (im_messages (store s)))"
  shows "MarkAsRead_loop s readTime msgIDs = Inr s"
  using assms(2)
proof (induction msgIDs)
  case Nil
  then show ?case by simp
next
  case (Cons msgID msgIDs)
  then have no: "msgID \<notin> set (map MsgID (im_messages (store s)))" by simp
  have "UpdateStatus (store s) msgID MsgStatusRead readTime = (None, store s)"
    using assms(1) no by (rule UpdateStatus_no_row)
  moreover have "GetByMsgID (store s) msgID = Inl ErrRecordNotFound"
    using assms(1) no by (rule GetByMsgID_no_row)
  ultimately show ?case using Cons by simp
qed

text \<open>
  Claim C10. With the store answering, \<open>UpdateStatus\<close> on a message id that has no row
  returns no error and leaves the store as it was (no row is affected). \<open>MarkAsRead\<close>
  returns \<open>nil\<close> for every list of ids, whatever the store holds and whether or not
  it answers: a failed update or lookup only skips that id. When none of the ids has a
  row, the call changes nothing at all.
\<close>

theorem MarkAsRead_never_fails:
  "(db_up db \<and> msgID \<notin> set (map MsgID (im_messages db)) \<longrightarrow>
      UpdateStatus db msgID status updateTime = (None, db)) \<and>
   (hub_ok (hub s) \<longrightarrow> (\<exists>s'. MarkAsRead s now userID msgIDs = Inr (None, s'))) \<and>
   (db_up (store s) \<and> (\<forall>i\<in>set msgIDs. i \<notin> set (map MsgID (im_messages (store s)))) \<longrightarrow>
      MarkAsRead s now userID msgIDs = Inr (None, s))"
proof (intro conjI impI)
  assume "db_up db \<and> msgID \<notin> set (map MsgID (im_messages db))"
  then show "UpdateStatus db msgID status updateTime = (None, db)"
    using UpdateStatus_no_row by blast
next
  assume "hub_ok (hub s)"
  from MarkAsRead_loop_ok [OF this] obtain s' where "MarkAsRead_loop s now msgIDs = Inr s'"
    by blast
  then show "\<exists>s'. MarkAsRead s now userID msgIDs = Inr (None, s')"
    by (simp add: MarkAsRead_def)
next
  assume "db_up (store s) \<and> (\<forall>i\<in>set msgIDs. i \<notin> set (map MsgID (im_messages (store s))))"
  then have "MarkAsRead_loop s now msgIDs = Inr s"
    using MarkAsRead_loop_no_rows by blast
  then show "MarkAsRead s now userID msgIDs = Inr (None, s)"
    by (simp add: MarkAsRead_def)
qed

theorem MarkAsRead_never_fails_witness:
  "db_up db_m1 \<and> ''m9'' \<notin> set (map MsgID (im_messages db_m1)) \<and>
   UpdateStatus db_m1 ''m9'' MsgStatusRead 5000 = (None, db_m1) \<and>
   hub_ok (hub srv_m1) \<and>
   (\<exists>s'. MarkAsRead srv_m1 5000 2 [''m9'', ''m1''] = Inr (None, s')) \<and>
   db_up (store srv_m1) \<and>
   MarkAsRead srv_m1 5000 2 [''m9'', ''m8''] = Inr (None, srv_m1)"
proof -
  have a: "db_up db_m1 \<and> ''m9'' \<notin> set (map MsgID (im_messages db_m1))"
    by (simp add: db_m1_def db_empty_def msg_m1_def)
  have b: "hub_ok (hub srv_m1)"
    by (simp add: hub_ok_def srv_m1_def NewHub_def)
  have c: "db_up (store srv_m1) \<and>
      (\<forall>i\<in>set [''m9'', ''m8'']. i \<notin> set (map MsgID (im_messages (store srv_m1))))"
    by (simp add: srv_m1_def db_m1_def db_empty_def msg_m1_def)
  from MarkAsRead_never_fails [of db_m1 "''m9''" MsgStatusRead 5000 srv_m1 5000 2 "[''m9'', ''m1'']"]
    a b
  have 1: "UpdateStatus db_m1 ''m9'' MsgStatusRead 5000 = (None, db_m1)"
    and 2: "\<exists>s'. MarkAsRead srv_m1 5000 2 [''m9'', ''m1''] = Inr (None, s')"
    by blast+
  from MarkAsRead_never_fails [of db_m1 "''m9''" MsgStatusRead 5000 srv_m1 5000 2 "[''m9'', ''m8'']"]
    c
  have 3: "MarkAsRead srv_m1 5000 2 [''m9'', ''m8''] = Inr (None, srv_m1)"
    by blast
  from a b c 1 2 3 show ?thesis by blast
qed

section \<open>Repeated delivered receipts\<close>

lemma handleDeliveredReceipt_store:
  assumes "hub_ok (hub s)"
  shows "\<exists>s'. handleDeliveredReceipt s now userID (Some receipt) = Inr s' \<and> hub_ok (hub s') \<and>
           store s' = snd (UpdateStatus (store s) (rc_MsgID receipt) MsgStatusDelivered now)"
proof (cases "db_up (store s)")
  case False
  with assms show ?thesis
    by (simp add: handleDeliveredReceipt_def UpdateStatus_def)
next
  case True
  define d where "d = snd (UpdateStatus (store s) (rc_MsgID receipt) MsgStatusDelivered now)"
  have upd: "UpdateStatus (store s) (rc_MsgID receipt) MsgStatusDelivered now = (None, d)"
    using True by (simp add: d_def UpdateStatus_def)
  show ?thesis
  proof (cases "GetByMsgID d (rc_MsgID receipt)")
    case (Inl err)
    with upd assms show ?thesis
      by (simp add: handleDeliveredReceipt_def)
  next
    case (Inr msg)
    have "hub_ok (hub (s\<lparr>store := d\<rparr>))" using assms by simp
    from notifyStatusUpdate_ok [OF this] obtain s' where
      "notifyStatusUpdate (s\<lparr>store := d\<rparr>) (FromUserID msg) (rc_MsgID receipt)
         MsgStatusDelivered now = Inr s'" "hub_ok (hub s')" "store s' = d"
      by fastforce
    with upd Inr show ?thesis
      by (simp add: handleDeliveredReceipt_def)
  qed
qed

lemma handleDeliveredReceipt_effect:
  assumes "hub_ok (hub s)" and "db_up (store s)"
  shows "\<exists>s'. handleDeliveredReceipt s t userID (Some receipt) = Inr s' \<and>
           store s' = (store s)\<lparr>im_messages :=
             map (\<lambda>m. if MsgID m = rc_MsgID receipt
                       then m\<lparr>Status := MsgStatusDelivered, DeliveredTime := t\<rparr> else m)
               (im_messages (store s))\<rparr> \<and>
           (\<forall>m. GetByMsgID (store s) (rc_MsgID receipt) = Inr m \<longrightarrow>
                GetByMsgID (store s') (rc_MsgID receipt) =
                  Inr (m\<lparr>Status := MsgStatusDelivered, DeliveredTime := t\<rparr>))"
proof -
  from handleDeliveredReceipt_store [OF assms(1), of t userID receipt] obtain s' where
    s': "handleDeliveredReceipt s t userID (Some receipt) = Inr s'"
        "store s' = snd (UpdateStatus (store s) (rc_MsgID receipt) MsgStatusDelivered t)"
    by blast
  have eff: "store s' = (store s)\<lparr>im_messages :=
             map (\<lambda>m. if MsgID m = rc_MsgID receipt
                       then m\<lparr>Status := MsgStatusDelivered, DeliveredTime := t\<rparr> else m)
               (im_messages (store s))\<rparr>"
    using assms(2) by (simp add: s'(2) UpdateStatus_def apply_updates_def)
  have "\<forall>m. GetByMsgID (store s) (rc_MsgID receipt) = Inr m \<longrightarrow>
                GetByMsgID (store s') (rc_MsgID receipt) =
                  Inr (m\<lparr>Status := MsgStatusDelivered, DeliveredTime := t\<rparr>)"
  proof (intro allI impI)
    fix m assume "GetByMsgID (store s) (rc_MsgID receipt) = Inr m"
    then have f: "find (\<lambda>m. MsgID m = rc_MsgID receipt) (im_messages (store s)) = Some m"
      by (auto simp: GetByMsgID_def split: option.splits if_splits)
    then have "MsgID m = rc_MsgID receipt" by (auto simp: find_Some_iff)
    with f assms(2) show "GetByMsgID (store s') (rc_MsgID receipt) =
        Inr (m\<lparr>Status := MsgStatusDelivered, DeliveredTime := t\<rparr>)"
      by (simp add: s'(2) GetByMsgID_def UpdateStatus_def find_UpdateStatus_rows apply_updates_def)
  qed
  with s'(1) eff show ?thesis by blast
qed

text \<open>
  Claim C5, as amended. A delivered receipt writes status delivered and the time at which
  it is processed into \<open>delivered_time\<close> of the rows with its message id, whatever they
  hold, and changes nothing else in the store; this is so for the first receipt and for
  every repeated one, at any later state \<open>later\<close> of the server. A second receipt right
  after the first therefore leaves everything as the first left it except
  \<open>delivered_time\<close>, which now is the second time. A repeated receipt that finds the
  message in another status, read for one, puts it back to delivered.
\<close>

theorem handleDeliveredReceipt_repeated:
  assumes "hub_ok (hub s)" and "db_up (store s)"
  shows "\<exists>s1. handleDeliveredReceipt s t1 userID (Some receipt) = Inr s1 \<and>
           store s1 = (store s)\<lparr>im_messages :=
             map (\<lambda>m. if MsgID m = rc_MsgID receipt
                       then m\<lparr>Status := MsgStatusDelivered, DeliveredTime := t1\<rparr> else m)
               (im_messages (store s))\<rparr> \<and>
           (\<exists>s2. handleDeliveredReceipt s1 t2 userID (Some receipt) = Inr s2 \<and>
                 store s2 = (store s1)\<lparr>im_messages :=
                   map (\<lambda>m. if MsgID m = rc_MsgID receipt then m\<lparr>DeliveredTime := t2\<rparr> else m)
                     (im_messages (store s1))\<rparr>) \<and>
           (\<forall>later. hub_ok (hub later) \<and> db_up (store later) \<longrightarrow>
              (\<exists>s3. handleDeliveredReceipt later t3 userID (Some receipt) = Inr s3 \<and>
                 store s3 = (store later)\<lparr>im_messages :=
                   map (\<lambda>m. if MsgID m = rc_MsgID receipt
                             then m\<lparr>Status := MsgStatusDelivered, DeliveredTime := t3\<rparr> else m)
                     (im_messages (store later))\<rparr> \<and>
                 (\<forall>m. GetByMsgID (store later) (rc_MsgID receipt) = Inr m \<longrightarrow>
                      GetByMsgID (store s3) (rc_MsgID receipt) =
                        Inr (m\<lparr>Status := MsgStatusDelivered, DeliveredTime := t3\<rparr>))))"
proof -
  from handleDeliveredReceipt_store [OF assms(1), of t1 userID receipt] obtain s1 where
    s1: "handleDeliveredReceipt s t1 userID (Some receipt) = Inr s1" "hub_ok (hub s1)"
        "store s1 = snd (UpdateStatus (store s) (rc_MsgID receipt) MsgStatusDelivered t1)"
    by blast
  have e1: "store s1 = (store s)\<lparr>im_messages :=
             map (\<lambda>m. if MsgID m = rc_MsgID receipt
                       then m\<lparr>Status := MsgStatusDelivered, DeliveredTime := t1\<rparr> else m)
               (im_messages (store s))\<rparr>"
    using assms(2) by (simp add: s1(3) UpdateStatus_def apply_updates_def)
  from handleDeliveredReceipt_store [OF s1(2), of t2 userID receipt] obtain s2 where
    s2: "handleDeliveredReceipt s1 t2 userID (Some receipt) = Inr s2"
        "store s2 = snd (UpdateStatus (store s1) (rc_MsgID receipt) MsgStatusDelivered t2)"
    by blast
  have "store s2 = (store s1)\<lparr>im_messages :=
             map (\<lambda>m. if MsgID m = rc_MsgID receipt then m\<lparr>DeliveredTime := t2\<rparr> else m)
               (im_messages (store s1))\<rparr>"
    using assms(2) by (simp add: s2(2) s1(3) UpdateStatus_def apply_updates_def)
  with s2(1) have b2b: "\<exists>s2. handleDeliveredReceipt s1 t2 userID (Some receipt) = Inr s2 \<and>
                 store s2 = (store s1)\<lparr>im_messages :=
                   map (\<lambda>m. if MsgID m = rc_MsgID receipt then m\<lparr>DeliveredTime := t2\<rparr> else m)
                     (im_messages (store s1))\<rparr>"
    by blast
  have lat: "\<forall>later. hub_ok (hub later) \<and> db_up (store later) \<longrightarrow>
              (\<exists>s3. handleDeliveredReceipt later t3 userID (Some receipt) = Inr s3 \<and>
                 store s3 = (store later)\<lparr>im_messages :=
                   map (\<lambda>m. if MsgID m = rc_MsgID receipt
                             then m\<lparr>Status := MsgStatusDelivered, DeliveredTime := t3\<rparr> else m)
                     (im_messages (store later))\<rparr> \<and>
                 (\<forall>m. GetByMsgID (store later) (rc_MsgID receipt) = Inr m \<longrightarrow>
                      GetByMsgID (store s3) (rc_MsgID receipt) =
                        Inr (m\<lparr>Status := MsgStatusDelivered, DeliveredTime := t3\<rparr>)))"
    using handleDeliveredReceipt_effect by blast
  from s1(1) e1 b2b lat show ?thesis by blast
qed

text \<open>
  At a server where \<open>m1\<close> was delivered at 1500 and read at 1800, a repeated receipt
  processed at 2000 leaves the row with status delivered and \<open>delivered_time\<close> 2000.
\<close>

theorem handleDeliveredReceipt_repeated_witness:
  "hub_ok (hub srv_m1) \<and> db_up (store srv_m1) \<and>
   hub_ok (hub srv_m1_read) \<and> db_up (store srv_m1_read) \<and>
   GetByMsgID (store srv_m1_read) ''m1'' =
     Inr (msg_m1\<lparr>Status := MsgStatusRead, DeliveredTime := 1500, ReadTime := 1800\<rparr>) \<and>
   (\<exists>s3. handleDeliveredReceipt srv_m1_read 2000 2 (Some receipt_m1) = Inr s3 \<and>
      GetByMsgID (store s3) ''m1'' =
        Inr (msg_m1\<lparr>Status := MsgStatusDelivered, DeliveredTime := 2000, ReadTime := 1800\<rparr>))"
proof -
  have a: "hub_ok (hub srv_m1)"
    by (simp add: hub_ok_def srv_m1_def NewHub_def)
  have b: "db_up (store srv_m1)"
    by (simp add: srv_m1_def db_m1_def db_empty_def)
  have c: "hub_ok (hub srv_m1_read)"
    by (simp add: hub_ok_def srv_m1_read_def srv_m1_def NewHub_def)
  have d: "db_up (store srv_m1_read)"
    by (simp add: srv_m1_read_def srv_m1_def db_m1_read_def db_empty_def)
  have e: "GetByMsgID (store srv_m1_read) ''m1'' =
     Inr (msg_m1\<lparr>Status := MsgStatusRead, DeliveredTime := 1500, ReadTime := 1800\<rparr>)"
    by (simp add: GetByMsgID_def srv_m1_read_def srv_m1_def db_m1_read_def db_empty_def msg_m1_def)
  from handleDeliveredReceipt_repeated [OF a b, of 1500 2 receipt_m1 1600 2000]
  obtain s3 where
    "handleDeliveredReceipt srv_m1_read 2000 2 (Some receipt_m1) = Inr s3"
    "\<forall>m. GetByMsgID (store srv_m1_read) (rc_MsgID receipt_m1) = Inr m \<longrightarrow>
         GetByMsgID (store s3) (rc_MsgID receipt_m1) =
           Inr (m\<lparr>Status := MsgStatusDelivered, DeliveredTime := 2000\<rparr>)"
    using c d by blast
  then have "\<exists>s3. handleDeliveredReceipt srv_m1_read 2000 2 (Some receipt_m1) = Inr s3 \<and>
      GetByMsgID (store s3) ''m1'' =
        Inr (msg_m1\<lparr>Status := MsgStatusDelivered, DeliveredTime := 2000, ReadTime := 1800\<rparr>)"
    using e by (auto simp: receipt_m1_def)
  with a b c d e show ?thesis by blast
qed

text \<open>
  Claim C5 as stated fails. The first receipt for \<open>m1\<close>, processed at 1500, gives status
  delivered and \<open>delivered_time\<close> 1500; marking the message read at 1550 gives status
  read; the repeated receipt, processed at 1600, gives status delivered again, a
  regression from 4 to 3, and \<open>delivered_time\<close> 1600.
\<close>

theorem handleDeliveredReceipt_repeated_counterexample:
  "\<not> isl (handleDeliveredReceipt srv_m1 1500 2 (Some receipt_m1)) \<and>
   map Status (im_messages (store (projr
      (handleDeliveredReceipt srv_m1 1500 2 (Some receipt_m1))))) = [MsgStatusDelivered] \<and>
   map DeliveredTime (im_messages (store (projr
      (handleDeliveredReceipt srv_m1 1500 2 (Some receipt_m1))))) = [1500] \<and>
   \<not> isl (MarkAsRead (projr (handleDeliveredReceipt srv_m1 1500 2 (Some receipt_m1)))
            1550 2 [''m1'']) \<and>
   map Status (im_messages (store (snd (projr
      (MarkAsRead (projr (handleDeliveredReceipt srv_m1 1500 2 (Some receipt_m1)))
         1550 2 [''m1''])))))
     = [MsgStatusRead] \<and>
   \<not> isl (handleDeliveredReceipt
            (snd (projr (MarkAsRead (projr (handleDeliveredReceipt srv_m1 1500 2 (Some receipt_m1)))
               1550 2 [''m1''])))
            1600 2 (Some receipt_m1)) \<and>
   map Status (im_messages (store (projr
      (handleDeliveredReceipt
         (snd (projr (MarkAsRead (projr (handleDeliveredReceipt srv_m1 1500 2 (Some receipt_m1)))
            1550 2 [''m1''])))
         1600 2 (Some receipt_m1)))))
     = [MsgStatusDelivered] \<and>
   map DeliveredTime (im_messages (store (projr
      (handleDeliveredReceipt
         (snd (projr (MarkAsRead (projr (handleDeliveredReceipt srv_m1 1500 2 (Some receipt_m1)))
            1550 2 [''m1''])))
         1600 2 (Some receipt_m1)))))
     = [1600]"
  by (simp add: handleDeliveredReceipt_def MarkAsRead_def srv_m1_def receipt_m1_def db_m1_def
      db_empty_def msg_m1_def UpdateStatus_def apply_updates_def GetByMsgID_def
      notifyStatusUpdate_def SendToUser_def NewHub_def)

section \<open>The inter-node forward\<close>

text \<open>
  Claim C2 at a failing input. Node \<open>s1\<close> has no client for user 2. A forwarded message
  for user 2 is offered to the hub, which refuses it (the recorded attempt is \<open>False\<close>),
  nothing else changes, and the response still says \<open>Delivered = True\<close>.
\<close>

theorem ForwardMessage_always_delivered:
  "ForwardMessage srv_m1 2000 forward_m1 =
     Inr (\<lparr>Delivered = True, Error = ''''\<rparr>,
          srv_m1\<lparr>hub := (hub srv_m1)\<lparr>events :=
            [SendAttempt 2 (pushMsg_of msg_m1) False]\<rparr>\<rparr>)"
  by (simp add: ForwardMessage_def pushToLocalUser_def SendToUser_def srv_m1_def forward_m1_def
      NewHub_def msg_m1_def pushMsg_of_def)

section \<open>A second connection for the same user\<close>

text \<open>
  Claim C8. The hub's client map has one entry per user id. When \<open>Register\<close> finds a
  client for the user, it closes that client's queue, then its connection, and only then
  stores the new client under the user id, as the event order shows; afterwards the map
  holds the new client, which has the given connection and a queue of its own.
\<close>

theorem Hub_Register_replaces_prior_client:
  assumes "hub_ok h" and "clients h userID = Some oldClient"
  shows "\<exists>client h'. Hub_Register h userID conn = Inr (client, h') \<and>
           c_UserID client = userID \<and> c_Conn client = conn \<and>
           c_Send client \<noteq> c_Send oldClient \<and>
           clients h' = (clients h)(userID \<mapsto> client) \<and>
           closed (chans h' ! c_Send oldClient) \<and>
           c_Conn oldClient \<in> closed_conns h' \<and>
           \<not> closed (chans h' ! c_Send client) \<and>
           events h' = events h @
             [CloseSend (c_Send oldClient), CloseConn (c_Conn oldClient), Install userID client]"
proof -
  from assms have ok: "c_Send oldClient < length (chans h)" "\<not> closed (chans h ! c_Send oldClient)"
    by (auto simp: hub_ok_def)
  then show ?thesis
    using assms(2)
    by (simp add: Hub_Register_def Let_def close_chan_def chan_at_def close_conn_def install_def
        nth_append nth_list_update)
qed

theorem Hub_Register_replaces_prior_client_witness:
  "hub_ok hub_2 \<and> clients hub_2 2 = Some client_2 \<and>
   (\<exists>client h'. Hub_Register hub_2 2 8 = Inr (client, h') \<and>
           c_UserID client = 2 \<and> c_Conn client = 8 \<and>
           c_Send client \<noteq> c_Send client_2 \<and>
           clients h' = (clients hub_2)(2 \<mapsto> client) \<and>
           closed (chans h' ! c_Send client_2) \<and>
           c_Conn client_2 \<in> closed_conns h' \<and>
           \<not> closed (chans h' ! c_Send client) \<and>
           events h' = events hub_2 @
             [CloseSend (c_Send client_2), CloseConn (c_Conn client_2), Install 2 client])"
proof -
  have a: "hub_ok hub_2"
    by (simp add: hub_ok_def hub_2_def client_2_def)
  have b: "clients hub_2 2 = Some client_2"
    by (simp add: hub_2_def)
  from Hub_Register_replaces_prior_client [OF a b, of 8] a b
  show ?thesis by blast
qed

section \<open>Route lookups\<close>





text \<open>
  Claim C4, as amended. The lookup never reads \<open>last_heartbeat\<close>. It answers
  \<open>online = true\<close> exactly when the user's cache entry is fresh, or the store answers
  and holds the user's route row and the registry row of that route's server, however
  old the heartbeat in either row. On a cache miss with both rows present it returns the
  server's id and registered address. So a user is treated as offline only when no cache
  entry is fresh and the store fails or one of the two rows is missing.
\<close>

theorem GetUserRoute_online_ignores_heartbeat:
  "(snd (snd (fst (RouteManager_GetUserRoute rm db now now_fill userID))) \<longleftrightarrow>
      cache_fresh rm now userID \<or>
      (db_up db \<and>
       (\<exists>route server.
          find (\<lambda>r. ur_UserID r = userID) (im_user_routes db) = Some route \<and>
          find (\<lambda>r. sv_ServerID r = ur_ServerID route) (im_servers db) = Some server))) \<and>
   (\<not> cache_fresh rm now userID \<and> db_up db \<and>
    find (\<lambda>r. ur_UserID r = userID) (im_user_routes db) = Some route \<and>
    find (\<lambda>r. sv_ServerID r = ur_ServerID route) (im_servers db) = Some server \<longrightarrow>
      fst (RouteManager_GetUserRoute rm db now now_fill userID) =
        (ur_ServerID route, sv_GRPCAddr server, True))"
  by (auto simp: RouteManager_GetUserRoute_def RouteRepository_GetUserRoute_def cache_fresh_def
      split: option.splits)

theorem GetUserRoute_online_ignores_heartbeat_witness:
  "\<not> cache_fresh rm_s1 1000 2 \<and> db_up db_dead_s2 \<and>
   find (\<lambda>r. ur_UserID r = 2) (im_user_routes db_dead_s2) =
     Some \<lparr>ur_UserID = 2, ur_ServerID = ''s2'', ur_LastHeartbeat = 100\<rparr> \<and>
   find (\<lambda>r. sv_ServerID r = ''s2'') (im_servers db_dead_s2) =
     Some \<lparr>sv_ServerID = ''s2'', sv_GRPCAddr = ''10.0.0.2:50051'', sv_LastHeartbeat = 100\<rparr> \<and>
   snd (snd (fst (RouteManager_GetUserRoute rm_s1 db_dead_s2 1000 1000 2))) \<and>
   fst (RouteManager_GetUserRoute rm_s1 db_dead_s2 1000 1000 2) = (''s2'', ''10.0.0.2:50051'', True)"
proof -
  have a: "db_up db_dead_s2"
    by (simp add: db_dead_s2_def db_empty_def)
  have b: "find (\<lambda>r. ur_UserID r = 2) (im_user_routes db_dead_s2) =
     Some \<lparr>ur_UserID = 2, ur_ServerID = ''s2'', ur_LastHeartbeat = 100\<rparr>"
    by (simp add: db_dead_s2_def db_empty_def)
  have c: "find (\<lambda>r. sv_ServerID r = ''s2'') (im_servers db_dead_s2) =
     Some \<lparr>sv_ServerID = ''s2'', sv_GRPCAddr = ''10.0.0.2:50051'', sv_LastHeartbeat = 100\<rparr>"
    by (simp add: db_dead_s2_def db_empty_def)
  have d: "\<not> cache_fresh rm_s1 1000 2"
    by (simp add: cache_fresh_def rm_s1_def NewRouteManager_def)
  from GetUserRoute_online_ignores_heartbeat [of rm_s1 db_dead_s2 1000 1000 2
      "\<lparr>ur_UserID = 2, ur_ServerID = ''s2'', ur_LastHeartbeat = 100\<rparr>"
      "\<lparr>sv_ServerID = ''s2'', sv_GRPCAddr = ''10.0.0.2:50051'', sv_LastHeartbeat = 100\<rparr>"] a b c d
  show ?thesis by simp
qed

text \<open>
  Claim C4 as stated fails. At second 1000 server \<open>s2\<close>, last heard of at second 100, is
  not among the active servers, its registry row is still there, and the lookup of user 2
  answers \<open>online = true\<close> with the address of \<open>s2\<close>.
\<close>

theorem GetUserRoute_dead_server_counterexample:
  "GetActiveServers db_dead_s2 1000 = Inr [] \<and>
   fst (RouteManager_GetUserRoute rm_s1 db_dead_s2 1000 1000 2) = (''s2'', ''10.0.0.2:50051'', True)"
  by (simp add: GetActiveServers_def wrap_int64_def db_dead_s2_def db_empty_def
      RouteManager_GetUserRoute_def cache_fresh_def rm_s1_def NewRouteManager_def
      RouteRepository_GetUserRoute_def)

section \<open>Session counters\<close>

text \<open>
  Claim C3 at a failing input. User 1 sends the first message of the conversation to user
  2: no session row exists. The upsert inserts both rows with \<open>unread_count\<close> 0, so the
  recipient's counter is what it was before, not one more. A second message finds the row
  and adds 1: after two messages the recipient's counter is 1.
\<close>

theorem updateSession_first_message_unread:
  "unread_count_of (store srv_m1) 2 1 SessionTypeSingle = 0 \<and>
   im_sessions (store (updateSession srv_m1 msg_m1)) =
     [\<lparr>s_UserID = 1, s_TargetID = 2, s_SessionType = 1, s_LastMsgContent = ''hi'',
       s_LastMsgTime = 1001, s_UnreadCount = 0\<rparr>,
      \<lparr>s_UserID = 2, s_TargetID = 1, s_SessionType = 1, s_LastMsgContent = ''hi'',
       s_LastMsgTime = 1001, s_UnreadCount = 0\<rparr>] \<and>
   unread_count_of (store (updateSession srv_m1 msg_m1)) 2 1 SessionTypeSingle = 0 \<and>
   unread_count_of (store (updateSession (updateSession srv_m1 msg_m1) msg_m1)) 2 1 SessionTypeSingle = 1"
  by (simp add: updateSession_def UpdateSession_def dbSession_of_def same_session_key_def
      unread_count_of_def srv_m1_def db_m1_def db_empty_def msg_m1_def Let_def)

section \<open>History\<close>

lemma query_is_spec:
  "list_all (\<lambda>clause. clause m) (GetMessages_query req) = spec_history_selects req m"
  by (auto simp: GetMessages_query_def spec_history_selects_def single_chat_clause_def
      group_chat_clause_def Let_def)

lemma IMServer_GetMessages_eq:
  "IMServer_GetMessages db req = MessageRepository_GetMessages db req"
  by (simp add: IMServer_GetMessages_def MessageRepository_GetMessages_def GetMessages_query_def
      single_chat_clause_def group_chat_clause_def Let_def)

lemma sorted_desc:
  "sorted (map (\<lambda>m. - f m) xs) \<Longrightarrow> sorted (rev (map (f :: 'a \<Rightarrow> int) xs))"
  by (simp add: sorted_wrt_rev sorted_wrt_map)

text \<open>
  Claim C7. With the store answering, a history request returns (through the server
  method and through the repository alike) messages that the specification's selection
  picks: the two directions between user and target for a single chat, the group id
  otherwise, and, when \<open>before_time\<close> is positive, a server time strictly below it.
  The result is in descending order of server time, it is the newest part of the
  selection (what is left out is not newer than anything returned), and its length is the
  limit, 20 when the request says 0, or the size of the selection when that is smaller
  (GORM drops a negative limit).
\<close>

theorem GetMessages_history:
  assumes "db_up db"
  shows "\<exists>ms rest.
           IMServer_GetMessages db req = Inr ms \<and>
           MessageRepository_GetMessages db req = Inr ms \<and>
           mset ms + mset rest = mset (filter (spec_history_selects req) (im_messages db)) \<and>
           sorted (rev (map ServerTime ms)) \<and>
           (\<forall>a\<in>set ms. \<forall>b\<in>set rest. ServerTime b \<le> ServerTime a) \<and>
           length ms =
             (let limit = (if req_Limit req = 0 then 20 else req_Limit req);
                  n = length (filter (spec_history_selects req) (im_messages db))
              in if limit < 0 then n else min (nat limit) n)"
proof -
  define limit where "limit = (if req_Limit req = 0 then 20 else req_Limit req)"
  define srt where "srt = sort_key (\<lambda>m. - ServerTime m)
                      (filter (spec_history_selects req) (im_messages db))"
  define ms where "ms = gorm_limit limit srt"
  define rest where "rest = (if limit < 0 then [] else drop (nat limit) srt)"
  have res: "MessageRepository_GetMessages db req = Inr ms"
    using assms
    by (simp add: MessageRepository_GetMessages_def Let_def query_is_spec ms_def srt_def limit_def)
  have split: "ms @ rest = srt"
    by (simp add: ms_def rest_def gorm_limit_def)
  have srt_sorted: "sorted (map (\<lambda>m. - ServerTime m) srt)"
    by (simp add: srt_def)
  have m: "mset ms + mset rest = mset (filter (spec_history_selects req) (im_messages db))"
  proof -
    have "mset ms + mset rest = mset srt"
      using split by (metis mset_append)
    then show ?thesis by (simp add: srt_def)
  qed
  have "sorted (map (\<lambda>m. - ServerTime m) (ms @ rest))"
    using srt_sorted split by simp
  then have both: "sorted (map (\<lambda>m. - ServerTime m) ms)"
    "\<forall>a\<in>set ms. \<forall>b\<in>set rest. - ServerTime a \<le> - ServerTime b"
    by (auto simp: sorted_append)
  have desc: "sorted (rev (map ServerTime ms))"
    using both(1) by (rule sorted_desc)
  have newest: "\<forall>a\<in>set ms. \<forall>b\<in>set rest. ServerTime b \<le> ServerTime a"
    using both(2) by auto
  have len: "length ms = (if limit < 0 then length srt else min (nat limit) (length srt))"
    by (simp add: ms_def gorm_limit_def min.commute)
  have len': "length srt = length (filter (spec_history_selects req) (im_messages db))"
    by (simp add: srt_def)
  show ?thesis
    using res m desc newest len len'
    by (auto simp: IMServer_GetMessages_eq limit_def Let_def)
qed

theorem GetMessages_history_witness:
  "db_up db_m1 \<and>
   (\<exists>ms rest.
           IMServer_GetMessages db_m1 history_req = Inr ms \<and>
           MessageRepository_GetMessages db_m1 history_req = Inr ms \<and>
           mset ms + mset rest = mset (filter (spec_history_selects history_req) (im_messages db_m1)) \<and>
           sorted (rev (map ServerTime ms)) \<and>
           (\<forall>a\<in>set ms. \<forall>b\<in>set rest. ServerTime b \<le> ServerTime a) \<and>
           length ms =
             (let limit = (if req_Limit history_req = 0 then 20 else req_Limit history_req);
                  n = length (filter (spec_history_selects history_req) (im_messages db_m1))
              in if limit < 0 then n else min (nat limit) n)) \<and>
   IMServer_GetMessages db_m1 history_req = Inr [msg_m1]"
proof -
  have a: "db_up db_m1"
    by (simp add: db_m1_def db_empty_def)
  have b: "IMServer_GetMessages db_m1 history_req = Inr [msg_m1]"
    by (simp add: IMServer_GetMessages_def MessageRepository_GetMessages_def GetMessages_query_def
        single_chat_clause_def gorm_limit_def history_req_def db_m1_def db_empty_def msg_m1_def)
  from GetMessages_history [OF a, of history_req] a b
  show ?thesis by blast
qed

section \<open>The offline drain\<close>

lemma chat_attempts_append [simp]:
  "chat_attempts u (xs @ ys) = chat_attempts u xs @ chat_attempts u ys"
  by (simp add: chat_attempts_def)

lemma chat_attempts_Nil [simp]: "chat_attempts u [] = []"
  by (simp add: chat_attempts_def)

lemma chat_attempts_push [simp]:
  "chat_attempts u (SendAttempt u (pushMsg_of m) ok # evs) = (pushMsg_of m, ok) # chat_attempts u evs"
  by (simp add: chat_attempts_def pushMsg_of_def)

lemma chat_attempts_status [simp]:
  "chat_attempts u (SendAttempt v \<lparr>ws_Type = WSMsgTypeStatusUpdate, ws_MsgID = i,
      ws_Data = d, ws_Timestamp = t\<rparr> ok # evs) = chat_attempts u evs"
  by (simp add: chat_attempts_def)

lemma UpdateStatus_keeps_other_rows:
  assumes "m \<in> set (im_messages db)" and "MsgID m \<noteq> msgID"
  shows "m \<in> set (im_messages (snd (UpdateStatus db msgID status updateTime)))"
  using assms by (auto simp: UpdateStatus_def intro: rev_image_eqI)

lemma pushOfflineMessages_loop_trace:
  assumes "hub_ok (hub s)"
  shows "\<exists>s' k evs. pushOfflineMessages_loop s clock userID messages = Inr s' \<and>
           hub_ok (hub s') \<and> k \<le> length messages \<and>
           events (hub s') = events (hub s) @ evs \<and>
           chat_attempts userID evs =
             map (\<lambda>m. (pushMsg_of m, True)) (take k messages) @
             (if k < length messages then [(pushMsg_of (messages ! k), False)] else []) \<and>
           (\<forall>m\<in>set (im_messages (store s)).
              MsgID m \<notin> MsgID ` set (take k messages) \<longrightarrow> m \<in> set (im_messages (store s')))"
  using assms
proof (induction messages arbitrary: s clock)
  case Nil
  then show ?case by simp
next
  case (Cons msg messages)
  from SendToUser_ok [OF Cons.prems] obtain delivered h1 where
    send: "SendToUser (hub s) userID (pushMsg_of msg) = Inr (delivered, h1)"
      "hub_ok h1" "events h1 = events (hub s) @ [SendAttempt userID (pushMsg_of msg) delivered]"
    by blast
  show ?case
  proof (cases delivered)
    case False
    let ?s' = "s\<lparr>hub := h1\<rparr>"
    have run: "pushOfflineMessages_loop s clock userID (msg # messages) = Inr ?s'"
      using send(1) False by simp
    have "hub_ok (hub ?s') \<and> (0::nat) \<le> length (msg # messages) \<and>
           events (hub ?s') = events (hub s) @ [SendAttempt userID (pushMsg_of msg) False] \<and>
           chat_attempts userID [SendAttempt userID (pushMsg_of msg) False] =
             map (\<lambda>m. (pushMsg_of m, True)) (take 0 (msg # messages)) @
             (if 0 < length (msg # messages) then [(pushMsg_of ((msg # messages) ! 0), False)] else []) \<and>
           (\<forall>m\<in>set (im_messages (store s)).
              MsgID m \<notin> MsgID ` set (take 0 (msg # messages)) \<longrightarrow> m \<in> set (im_messages (store ?s')))"
      using send(2,3) False by simp
    with run show ?thesis by blast
  next
    case True
    define d1 where "d1 = snd (UpdateStatus (store s) (MsgID msg) MsgStatusDelivered (clock 0))"
    let ?s0 = "s\<lparr>hub := h1, store := d1\<rparr>"
    have "hub_ok (hub ?s0)" using send(2) by simp
    from notifyStatusUpdate_ok [OF this, of "FromUserID msg" "MsgID msg" MsgStatusDelivered "clock 0"]
    obtain s1 ok where
      ntf: "notifyStatusUpdate ?s0 (FromUserID msg) (MsgID msg) MsgStatusDelivered (clock 0) = Inr s1"
        "hub_ok (hub s1)" "store s1 = d1"
        "events (hub s1) = events h1 @
           [SendAttempt (FromUserID msg) \<lparr>ws_Type = WSMsgTypeStatusUpdate, ws_MsgID = MsgID msg,
              ws_Data = WSStatusUpdate (MsgID msg) MsgStatusDelivered (clock 0),
              ws_Timestamp = clock 0\<rparr> ok]"
      by auto
    from Cons.IH [OF ntf(2), of "\<lambda>i. clock (Suc i)"] obtain s' k evs where
      ih: "pushOfflineMessages_loop s1 (\<lambda>i. clock (Suc i)) userID messages = Inr s'"
        "hub_ok (hub s')" "k \<le> length messages"
        "events (hub s') = events (hub s1) @ evs"
        "chat_attempts userID evs =
           map (\<lambda>m. (pushMsg_of m, True)) (take k messages) @
           (if k < length messages then [(pushMsg_of (messages ! k), False)] else [])"
        "\<forall>m\<in>set (im_messages (store s1)).
           MsgID m \<notin> MsgID ` set (take k messages) \<longrightarrow> m \<in> set (im_messages (store s'))"
      by blast
    have run: "pushOfflineMessages_loop s clock userID (msg # messages) = Inr s'"
      using send(1) True ntf(1) ih(1) by (simp add: d1_def)
    let ?evs = "[SendAttempt userID (pushMsg_of msg) True,
                 SendAttempt (FromUserID msg) \<lparr>ws_Type = WSMsgTypeStatusUpdate, ws_MsgID = MsgID msg,
                   ws_Data = WSStatusUpdate (MsgID msg) MsgStatusDelivered (clock 0),
                   ws_Timestamp = clock 0\<rparr> ok] @ evs"
    have ev: "events (hub s') = events (hub s) @ ?evs"
      using ih(4) ntf(4) send(3) True by simp
    have "chat_attempts userID ?evs = (pushMsg_of msg, True) # chat_attempts userID evs"
      by simp
    then have att: "chat_attempts userID ?evs =
        map (\<lambda>m. (pushMsg_of m, True)) (take (Suc k) (msg # messages)) @
        (if Suc k < length (msg # messages) then [(pushMsg_of ((msg # messages) ! Suc k), False)] else [])"
      using ih(5) by simp
    have rows: "\<forall>m\<in>set (im_messages (store s)).
        MsgID m \<notin> MsgID ` set (take (Suc k) (msg # messages)) \<longrightarrow> m \<in> set (im_messages (store s'))"
    proof (intro ballI impI)
      fix m
      assume m: "m \<in> set (im_messages (store s))"
        and other: "MsgID m \<notin> MsgID ` set (take (Suc k) (msg # messages))"
      from other have ne: "MsgID m \<noteq> MsgID msg" and rest: "MsgID m \<notin> MsgID ` set (take k messages)"
        by auto
      from UpdateStatus_keeps_other_rows [OF m ne] have "m \<in> set (im_messages (store s1))"
        by (simp add: ntf(3) d1_def)
      with ih(6) rest show "m \<in> set (im_messages (store s'))" by blast
    qed
    have "Suc k \<le> length (msg # messages)" using ih(3) by simp
    with run ih(2) ev att rows show ?thesis by blast
  qed
qed

lemma srv_two_query:
  "GetUndeliveredMessages (store srv_two) 2 100 = Inr [msg_m1, msg_m2]"
  by (simp add: GetUndeliveredMessages_def gorm_limit_def srv_two_def db_empty_def msg_m1_def msg_m2_def)

lemma srv_two_hub_ok: "hub_ok (hub srv_two)"
  by (simp add: hub_ok_def srv_two_def hub_2_def client_2_def)

lemma srv_two_unfold:
  "pushOfflineMessages srv_two clock 2 = pushOfflineMessages_loop srv_two clock 2 [msg_m1, msg_m2]"
  by (simp add: pushOfflineMessages_def srv_two_query)

lemma srv_two_send1:
  "SendToUser (hub srv_two) 2 (pushMsg_of msg_m1) =
     Inr (True, (hub srv_two)\<lparr>chans := [\<lparr>buf = replicate 255 (pushMsg_of msg_m1) @ [pushMsg_of msg_m1], closed = False\<rparr>],
        events := [SendAttempt 2 (pushMsg_of msg_m1) True]\<rparr>)"
  by (simp add: SendToUser_def chan_at_def srv_two_def hub_2_def client_2_def)

lemma srv_two_drain:
  "chat_attempts 2 (events (hub (projr (pushOfflineMessages srv_two (\<lambda>i. 3000) 2)))) =
     [(pushMsg_of msg_m1, True), (pushMsg_of msg_m2, False)] \<and>
   map (\<lambda>m. (MsgID m, Status m)) (im_messages (store (projr (pushOfflineMessages srv_two (\<lambda>i. 3000) 2))))
     = [(''m2'', 2), (''m1'', 3)]"
  apply (simp add: srv_two_unfold srv_two_send1)
  apply (simp add: SendToUser_def chan_at_def notifyStatusUpdate_def srv_two_def hub_2_def client_2_def)
  apply (simp add: UpdateStatus_def apply_updates_def db_empty_def msg_m1_def msg_m2_def)
  done

text \<open>
  Claim C6. With the store answering and message ids unique in the table, the drain of a
  connecting user queries \<open>messages\<close>: at most 100 rows, all addressed to the user and
  in status sent, in ascending order of server time, and the oldest of the user's
  undelivered rows (\<open>waiting\<close>, the rest, is not older and is empty unless the batch is
  full). It then offers them to the user's queue in that order: the push attempts it adds
  to the hub's events are the first \<open>k\<close> messages, each accepted, followed, when
  \<open>k\<close> is not the whole batch, by one refused attempt for the next message and nothing
  after it. The messages from position \<open>k\<close> on are still rows of the table as they were
  queried, in status sent.
\<close>

theorem pushOfflineMessages_drain:
  assumes "hub_ok (hub s)" and "db_up (store s)"
      and "distinct (map MsgID (im_messages (store s)))"
  shows "\<exists>messages waiting.
           GetUndeliveredMessages (store s) userID 100 = Inr messages \<and>
           length messages \<le> 100 \<and>
           mset messages + mset waiting =
             mset (filter (\<lambda>m. ToUserID m = userID \<and> Status m = MsgStatusSent)
                     (im_messages (store s))) \<and>
           (length messages < 100 \<longrightarrow> waiting = []) \<and>
           sorted (map ServerTime messages) \<and>
           (\<forall>a\<in>set messages. \<forall>b\<in>set waiting. ServerTime a \<le> ServerTime b) \<and>
           (\<exists>s' k evs.
              pushOfflineMessages s clock userID = Inr s' \<and> k \<le> length messages \<and>
              events (hub s') = events (hub s) @ evs \<and>
              chat_attempts userID evs =
                map (\<lambda>m. (pushMsg_of m, True)) (take k messages) @
                (if k < length messages then [(pushMsg_of (messages ! k), False)] else []) \<and>
              (\<forall>m\<in>set (drop k messages).
                 m \<in> set (im_messages (store s')) \<and> Status m = MsgStatusSent))"
proof -
  define und where "und = filter (\<lambda>m. ToUserID m = userID \<and> Status m = MsgStatusSent)
                            (im_messages (store s))"
  define srt where "srt = sort_key ServerTime und"
  define messages where "messages = take 100 srt"
  define waiting where "waiting = drop 100 srt"
  have q: "GetUndeliveredMessages (store s) userID 100 = Inr messages"
    using assms(2)
    by (simp add: GetUndeliveredMessages_def gorm_limit_def messages_def srt_def und_def)
  have len: "length messages \<le> 100"
    by (simp add: messages_def)
  have split: "messages @ waiting = srt"
    by (simp add: messages_def waiting_def)
  have ms: "mset messages + mset waiting = mset und"
  proof -
    have "mset messages + mset waiting = mset srt"
      using split by (metis mset_append)
    then show ?thesis by (simp add: srt_def)
  qed
  have short: "length messages < 100 \<longrightarrow> waiting = []"
    by (auto simp: messages_def waiting_def)
  have "sorted (map ServerTime (messages @ waiting))"
    using split by (simp add: srt_def)
  then have srtd: "sorted (map ServerTime messages)"
    and oldest: "\<forall>a\<in>set messages. \<forall>b\<in>set waiting. ServerTime a \<le> ServerTime b"
    by (auto simp: sorted_append)
  have sub: "set messages \<subseteq> set und"
  proof -
    have "set messages \<subseteq> set srt" by (simp add: messages_def set_take_subset)
    then show ?thesis by (simp add: srt_def)
  qed
  have und_rows: "\<And>m. m \<in> set und \<Longrightarrow> m \<in> set (im_messages (store s)) \<and> Status m = MsgStatusSent"
    by (simp add: und_def)
  have "distinct (map MsgID und)"
    using assms(3) by (simp add: und_def distinct_map_filter)
  moreover have "mset (map MsgID srt) = mset (map MsgID und)"
    by (simp add: srt_def)
  ultimately have "distinct (map MsgID srt)"
    by (metis mset_eq_imp_distinct_iff)
  then have dist: "distinct (map MsgID messages)"
    by (simp add: messages_def distinct_take flip: take_map)
  show ?thesis
  proof (cases "length messages = 0")
    case True
    then have "pushOfflineMessages s clock userID = Inr s"
      using q by (simp add: pushOfflineMessages_def)
    moreover have "chat_attempts userID [] =
        map (\<lambda>m. (pushMsg_of m, True)) (take 0 messages) @
        (if 0 < length messages then [(pushMsg_of (messages ! 0), False)] else [])"
      using True by simp
    moreover have "\<forall>m\<in>set (drop 0 messages).
        m \<in> set (im_messages (store s)) \<and> Status m = MsgStatusSent"
      using True by simp
    ultimately have "\<exists>s' k evs.
        pushOfflineMessages s clock userID = Inr s' \<and> k \<le> length messages \<and>
        events (hub s') = events (hub s) @ evs \<and>
        chat_attempts userID evs =
          map (\<lambda>m. (pushMsg_of m, True)) (take k messages) @
          (if k < length messages then [(pushMsg_of (messages ! k), False)] else []) \<and>
        (\<forall>m\<in>set (drop k messages).
           m \<in> set (im_messages (store s')) \<and> Status m = MsgStatusSent)"
      by (metis append_Nil2 le0)
    with q len ms short srtd oldest show ?thesis
      unfolding und_def by blast
  next
    case False
    from pushOfflineMessages_loop_trace [OF assms(1), of clock userID messages]
    obtain s' k evs where
      lp: "pushOfflineMessages_loop s clock userID messages = Inr s'" "k \<le> length messages"
        "events (hub s') = events (hub s) @ evs"
        "chat_attempts userID evs =
           map (\<lambda>m. (pushMsg_of m, True)) (take k messages) @
           (if k < length messages then [(pushMsg_of (messages ! k), False)] else [])"
        "\<forall>m\<in>set (im_messages (store s)).
           MsgID m \<notin> MsgID ` set (take k messages) \<longrightarrow> m \<in> set (im_messages (store s'))"
      by blast
    have run: "pushOfflineMessages s clock userID = Inr s'"
      using q False lp(1) by (simp add: pushOfflineMessages_def)
    have remaining: "\<forall>m\<in>set (drop k messages).
        m \<in> set (im_messages (store s')) \<and> Status m = MsgStatusSent"
    proof
      fix m
      assume m: "m \<in> set (drop k messages)"
      then have "m \<in> set messages" by (rule in_set_dropD)
      with sub und_rows have row: "m \<in> set (im_messages (store s))" "Status m = MsgStatusSent"
        by auto
      have "distinct (map MsgID (take k messages) @ map MsgID (drop k messages))"
        using dist by (simp flip: map_append)
      then have "MsgID ` set (take k messages) \<inter> MsgID ` set (drop k messages) = {}"
        by simp
      with m have "MsgID m \<notin> MsgID ` set (take k messages)" by blast
      with lp(5) row show "m \<in> set (im_messages (store s')) \<and> Status m = MsgStatusSent"
        by blast
    qed
    from run lp(2,3,4) remaining have "\<exists>s' k evs.
        pushOfflineMessages s clock userID = Inr s' \<and> k \<le> length messages \<and>
        events (hub s') = events (hub s) @ evs \<and>
        chat_attempts userID evs =
          map (\<lambda>m. (pushMsg_of m, True)) (take k messages) @
          (if k < length messages then [(pushMsg_of (messages ! k), False)] else []) \<and>
        (\<forall>m\<in>set (drop k messages).
           m \<in> set (im_messages (store s')) \<and> Status m = MsgStatusSent)"
      by blast
    with q len ms short srtd oldest show ?thesis
      unfolding und_def by blast
  qed
qed

theorem pushOfflineMessages_drain_witness:
  "hub_ok (hub srv_two) \<and> db_up (store srv_two) \<and>
   distinct (map MsgID (im_messages (store srv_two))) \<and>
   (\<exists>messages waiting.
           GetUndeliveredMessages (store srv_two) 2 100 = Inr messages \<and>
           length messages \<le> 100 \<and>
           mset messages + mset waiting =
             mset (filter (\<lambda>m. ToUserID m = 2 \<and> Status m = MsgStatusSent)
                     (im_messages (store srv_two))) \<and>
           (length messages < 100 \<longrightarrow> waiting = []) \<and>
           sorted (map ServerTime messages) \<and>
           (\<forall>a\<in>set messages. \<forall>b\<in>set waiting. ServerTime a \<le> ServerTime b) \<and>
           (\<exists>s' k evs.
              pushOfflineMessages srv_two (\<lambda>i. 3000) 2 = Inr s' \<and> k \<le> length messages \<and>
              events (hub s') = events (hub srv_two) @ evs \<and>
              chat_attempts 2 evs =
                map (\<lambda>m. (pushMsg_of m, True)) (take k messages) @
                (if k < length messages then [(pushMsg_of (messages ! k), False)] else []) \<and>
              (\<forall>m\<in>set (drop k messages).
                 m \<in> set (im_messages (store s')) \<and> Status m = MsgStatusSent))) \<and>
   GetUndeliveredMessages (store srv_two) 2 100 = Inr [msg_m1, msg_m2] \<and>
   chat_attempts 2 (events (hub (projr (pushOfflineMessages srv_two (\<lambda>i. 3000) 2)))) =
     [(pushMsg_of msg_m1, True), (pushMsg_of msg_m2, False)] \<and>
   map (\<lambda>m. (MsgID m, Status m))
     (im_messages (store (projr (pushOfflineMessages srv_two (\<lambda>i. 3000) 2))))
     = [(''m2'', 2), (''m1'', 3)]"
proof -
  have a: "hub_ok (hub srv_two)"
    by (rule srv_two_hub_ok)
  have b: "db_up (store srv_two)"
    by (simp add: srv_two_def db_empty_def)
  have c: "distinct (map MsgID (im_messages (store srv_two)))"
    by (simp add: srv_two_def db_empty_def msg_m1_def msg_m2_def)
  note e = pushOfflineMessages_drain [OF a b c, of 2 "\<lambda>i. 3000"]
  note q = srv_two_query
  note d1 = srv_two_drain [THEN conjunct1]
  note d2 = srv_two_drain [THEN conjunct2]
  from a b c e q d1 d2 show ?thesis
    by (intro conjI)
qed

end
